theory Spec2Isabelle
  imports Main
begin

section \<open>Primitive JavaScript operations used by the sources\<close>

text \<open>
  Strings are byte lists (UTF-8); the few non-ASCII characters of the templates are
  written as their bytes. Numbers are the integer values the sliders and counters of
  the application produce, so \<open>String(n)\<close> is the decimal rendering.
\<close>

definition digit :: "nat \<Rightarrow> char" where
  "digit n = ''0123456789'' ! n"

function String_nat :: "nat \<Rightarrow> string" where
  "String_nat n = (if n < 10 then [digit n] else String_nat (n div 10) @ [digit (n mod 10)])"
  by pat_completeness auto
termination
  by (relation "measure (\<lambda>n. n)") auto

declare String_nat.simps [simp del]

definition String_number :: "int \<Rightarrow> string" where
  "String_number i = (if i < 0 then CHR ''-'' # String_nat (nat (- i)) else String_nat (nat i))"

text \<open>The remainder operator \<open>%\<close> on integers: the sign follows the dividend.\<close>

definition js_rem :: "int \<Rightarrow> int \<Rightarrow> int" where
  "js_rem a b = sgn a * (\<bar>a\<bar> mod \<bar>b\<bar>)"

definition toUpperCase :: "string \<Rightarrow> string" where
  "toUpperCase s =
     map (\<lambda>c. if 97 \<le> (of_char c :: nat) \<and> (of_char c :: nat) \<le> 122
              then char_of ((of_char c :: nat) - 32) else c) s"

fun startsWith :: "string \<Rightarrow> string \<Rightarrow> bool" where
  "startsWith s [] = True"
| "startsWith [] (p # ps) = False"
| "startsWith (c # cs) (p # ps) = (c = p \<and> startsWith cs ps)"

fun string_includes :: "string \<Rightarrow> string \<Rightarrow> bool" where
  "string_includes [] sub = (sub = [])"
| "string_includes (c # cs) sub = (startsWith (c # cs) sub \<or> string_includes cs sub)"

text \<open>\<open>s.split(',')\<close>: the list of parts is never empty.\<close>

fun split_on :: "char \<Rightarrow> string \<Rightarrow> string list" where
  "split_on d [] = [[]]"
| "split_on d (c # cs) =
     (if c = d then [] # split_on d cs
      else (case split_on d cs of [] \<Rightarrow> [[c]] | p # ps \<Rightarrow> (c # p) # ps))"

text \<open>\<open>parts[k]\<close> on an array: \<open>undefined\<close> out of range.\<close>

definition at_index :: "'a list \<Rightarrow> nat \<Rightarrow> 'a option" where
  "at_index xs k = (if k < length xs then Some (xs ! k) else None)"

text \<open>
  \<open>meta.match(/:(.*?);/)\<close>: the leftmost colon from which a semicolon is reached
  without crossing a line terminator; the group is the text in between, up to the
  first such semicolon.
\<close>

fun lazy_until_semicolon :: "string \<Rightarrow> string option" where
  "lazy_until_semicolon [] = None"
| "lazy_until_semicolon (c # cs) =
     (if c = CHR '';'' then Some []
      else if c = CHR 0x0A \<or> c = CHR 0x0D then None
      else map_option ((#) c) (lazy_until_semicolon cs))"

fun mimeMatch :: "string \<Rightarrow> string option" where
  "mimeMatch [] = None"
| "mimeMatch (c # cs) =
     (if c = CHR '':'' then
        (case lazy_until_semicolon cs of Some g \<Rightarrow> Some g | None \<Rightarrow> mimeMatch cs)
      else mimeMatch cs)"

text \<open>\<open>Array.prototype.findIndex\<close>, with \<open>None\<close> for \<open>-1\<close>.\<close>

fun findIndex :: "('a \<Rightarrow> bool) \<Rightarrow> 'a list \<Rightarrow> nat option" where
  "findIndex P [] = None"
| "findIndex P (x # xs) = (if P x then Some 0 else map_option Suc (findIndex P xs))"

text \<open>Truthiness of an optional string and the \<open>||\<close> default on optional values.\<close>

definition falsy_string :: "string option \<Rightarrow> bool" where
  "falsy_string v = (v = None \<or> v = Some [])"

definition or_default :: "'a option \<Rightarrow> 'a \<Rightarrow> 'a" where
  "or_default v d = (case v of None \<Rightarrow> d | Some x \<Rightarrow> x)"

definition or_default_number :: "int option \<Rightarrow> int \<Rightarrow> int" where
  "or_default_number v d = (case v of None \<Rightarrow> d | Some x \<Rightarrow> if x = 0 then d else x)"

section \<open>Types (src/types.ts)\<close>

datatype ShadowIntensity = Soft | Hard | Long

datatype MaterialType = Standard | Metal | Texture | Stone | Patina | Silver | Ammonia

datatype AspectRatio = Ratio_1_1 | Ratio_16_9 | Ratio_4_3 | Ratio_9_16 | Ratio_3_4

datatype PatinaVariation = Subtle | StandardVariation | Extreme

datatype Status = Queued | Generating | Completed | Failed

fun String_ShadowIntensity :: "ShadowIntensity \<Rightarrow> string" where
  "String_ShadowIntensity Soft = ''soft''"
| "String_ShadowIntensity Hard = ''hard''"
| "String_ShadowIntensity Long = ''long''"

fun String_MaterialType :: "MaterialType \<Rightarrow> string" where
  "String_MaterialType Standard = ''standard''"
| "String_MaterialType Metal = ''metal''"
| "String_MaterialType Texture = ''texture''"
| "String_MaterialType Stone = ''stone''"
| "String_MaterialType Patina = ''patina''"
| "String_MaterialType Silver = ''silver''"
| "String_MaterialType Ammonia = ''ammonia''"

text \<open>\<open>String(v)\<close> of a possibly \<open>undefined\<close> value, and of a possibly \<open>null\<close> one.\<close>

definition String_undefined :: "('a \<Rightarrow> string) \<Rightarrow> 'a option \<Rightarrow> string" where
  "String_undefined str v = (case v of None \<Rightarrow> ''undefined'' | Some x \<Rightarrow> str x)"

definition String_null :: "('a \<Rightarrow> string) \<Rightarrow> 'a option \<Rightarrow> string" where
  "String_null str v = (case v of None \<Rightarrow> ''null'' | Some x \<Rightarrow> str x)"

section \<open>Directive compiler (src/services/geminiService.ts)\<close>

definition distanceEffect :: "int \<Rightarrow> string" where
  "distanceEffect distance =
    (if distance > 0 then
      '' Due to elevation, the shadow edges must soften significantly '' @
      ''as they move away from the object (Inverse Square Law).''
     else [])"

definition shadowPhysics :: "ShadowIntensity \<Rightarrow> int \<Rightarrow> bool \<Rightarrow> string" where
  "shadowPhysics intensity distance enhancedLighting =
    (if enhancedLighting then
      (case intensity of
        Soft \<Rightarrow>
          ''**PHYSICS: LARGE SOFTBOX (DIFFUSED)**. '' @ [CHR 0x0A] @
          ''        1. **Light Wrap**: The light source is physically large. '' @
          ''It MUST wrap around the object'' @ [CHR 0x27] @
          ''s form. **CRITICAL**: Simulate a subtle light wrap effect where '' @
          ''the PURE WHITE BACKGROUND reflects light back onto the object'' @ [CHR 0x27] @
          ''s lower edges.'' @ [CHR 0x0A] @
          ''        2. **Gradient**: The cast shadow must have a smooth, '' @
          ''feathered gradient from the core to the edge. NO hard outlines.'' @ [CHR 0x0A] @
          ''        3. **Bounce**: The white floor bounces light back up, '' @
          ''filling in the deepest shadows on the object itself (High Radiosity).'' @
          distanceEffect distance
      | Hard \<Rightarrow>
          ''**PHYSICS: FRESNEL SPOT (DIRECT)**. '' @ [CHR 0x0A] @
          ''        1. **Definition**: High-contrast, well-defined shadow '' @ ''shape.'' @
          [CHR 0x0A] @
          ''        2. **Penumbra Accuracy**: Create a physically accurate '' @
          ''**PENUMBRA**. The shadow must be razor-sharp at the contact '' @
          ''point (if grounded) but blur progressively (Hardness gradient) '' @
          ''as it moves away from the object. The transition from Umbra '' @
          ''(dark core) to Penumbra (soft edge) must be distinct.'' @ distanceEffect distance
      | Long \<Rightarrow>
          ''**PHYSICS: LOW ANGLE (DRAMATIC)**. '' @ [CHR 0x0A] @
          ''        1. **Elongation**: Shadow length > 2x Object height. '' @ [CHR 0x0A] @
          ''        2. **Falloff**: Shadow density decreases linearly with '' @
          ''distance from the object.'' @ distanceEffect distance)
     else
      (case intensity of
        Soft \<Rightarrow>
          ''Diffused, soft, and feathered.'' @ distanceEffect distance
      | Hard \<Rightarrow>
          ''Sharp, crisp, and high-contrast.'' @ distanceEffect distance
      | Long \<Rightarrow>
          ''Elongated and dramatic.'' @ distanceEffect distance))"

definition heightDesc :: "int \<Rightarrow> string" where
  "heightDesc distance = (if distance < 30 then ''Hovering'' else ''Floating'')"

definition spatialInstruction :: "int \<Rightarrow> string" where
  "spatialInstruction distance =
    (if distance \<le> 5 then
      ''**STATUS: GROUNDED**. The object is physically touching the '' @
      ''white surface. **CRITICAL:** Generate deep, dark **Ambient Occlusion '' @
      ''(Contact Shadows)** exactly where the object meets the floor '' @ ''to ground it.''
     else
      ''**STATUS: '' @ toUpperCase (heightDesc distance) @ ''** (Distance: '' @
      String_number distance @
      ''%). The cast shadow is **DETACHED** from the object. The vertical '' @
      ''offset distance indicates the height.'')"

definition lightingEngine :: "bool \<Rightarrow> string" where
  "lightingEngine enhancedLighting =
    (if enhancedLighting then
      [CHR 0x0A] @
      ''      - **ADVANCED LIGHT TRANSPORT**: '' @ [CHR 0x0A] @
      ''        1. **White Bounce**: The pure white background (#FFFFFF) '' @
      ''acts as a reflector. Project subtle cool-white fill light into '' @ ''the object'' @
      [CHR 0x27] @ ''s shadow areas.'' @ [CHR 0x0A] @
      ''        2. **Specular Physics**: Highlights must follow the '' @
      ''curvature of the object (Fresnel effect).'' @ [CHR 0x0A] @
      ''      ''
     else
      ''- **STANDARD LIGHTING**: Simple ambient fill.'')"

definition lightSourceAngle :: "int \<Rightarrow> int" where
  "lightSourceAngle angle = js_rem (angle + 180) 360"

definition getShadowInstructions ::
  "int option \<Rightarrow> ShadowIntensity option \<Rightarrow> int option \<Rightarrow> bool option \<Rightarrow> string" where
  "getShadowInstructions angle_arg intensity_arg distance_arg enhancedLighting_arg =
    (let angle = or_default angle_arg 135;
         intensity = or_default intensity_arg Soft;
         distance = or_default distance_arg 0;
         enhancedLighting = or_default enhancedLighting_arg False
     in
      [CHR 0x0A] @
      ''   [LIGHTING & SHADOW SIMULATION]'' @ [CHR 0x0A] @
      ''   - MAIN LIGHT SOURCE ANGLE: '' @ String_number (lightSourceAngle angle) @
      [CHR 0xC2, CHR 0xB0, CHR 0x0A] @
      ''   - CAST SHADOW ANGLE: '' @ String_number angle @ [CHR 0xC2, CHR 0xB0, CHR 0x0A] @
      ''   - SHADOW PROFILE: '' @ shadowPhysics intensity distance enhancedLighting @ [CHR 0x0A] @
      ''   - SPATIAL RELATION: '' @ spatialInstruction distance @ [CHR 0x0A] @
      ''   '' @ lightingEngine enhancedLighting @ [CHR 0x0A] @
      ''  '')"

definition ammoniaVar :: "PatinaVariation \<Rightarrow> string" where
  "ammoniaVar patinaVariation =
    (case patinaVariation of
        Subtle \<Rightarrow>
          ''**LIGHT FUMING**: Delicate, wispy rainbow interference colors '' @
          ''(Pink/Blue/Gold) on raw metal.''
      | StandardVariation \<Rightarrow>
          ''**CLASSIC SALT & FUME**: Deep Cobalt Blue and Turquoise crystallization '' @
          ''mixed with Magenta/Purple transitions. Natural bloom pattern.''
      | Extreme \<Rightarrow>
          ''**HEAVY SATURATION**: Intense, psychedelic color shifting. Neon '' @
          ''Blues, Vibrant Purples, and sharp salt crusts covering most '' @ ''of the surface.'')"

definition variationDesc :: "PatinaVariation \<Rightarrow> string" where
  "variationDesc patinaVariation =
    (case patinaVariation of
        Subtle \<Rightarrow>
          ''**UNIFORM OXIDATION**: A consistent layer of dull green/brown '' @
          ''oxide. Very little raw metal showing.''
      | StandardVariation \<Rightarrow>
          ''**REALISTIC WEATHERING**: A complex mix of Turquoise Verdigris, '' @
          ''Malachite Green, and Dark Bronze. The oxidation should accumulate '' @
          ''physically in crevices.''
      | Extreme \<Rightarrow>
          ''**ANCIENT ARTIFACT**: Heavy incrustation. Vibrant Azurite Blues '' @
          ''and deep Emerald Greens. High-contrast transitions. Patina appears '' @
          ''thick and crusty.'')"

definition varInstruction :: "PatinaVariation \<Rightarrow> string" where
  "varInstruction patinaVariation =
    (case patinaVariation of
        Subtle \<Rightarrow>
          ''Monochrome oxidation (Uniform Green or Brown). Low color noise.''
      | StandardVariation \<Rightarrow>
          ''Natural variation. Mix of Turquoise, Malachite Green, and Deep '' @ ''Bronze.''
      | Extreme \<Rightarrow>
          ''**CHAOTIC IRIDESCENCE**. High-frequency color shifting. Deep '' @
          ''Blues, Vibrant Greens, and Oil-slick Purples mixed with raw '' @ ''metal.'')"

definition tarnishVar :: "PatinaVariation \<Rightarrow> string" where
  "tarnishVar patinaVariation =
    (case patinaVariation of
        Subtle \<Rightarrow>
          ''Champagne/Yellowish tinting on highlights. Soft Grey in shadows.''
      | StandardVariation \<Rightarrow>
          ''**CLASSIC ANTIQUE**. Deep Grey/Black accumulation in crevices '' @
          ''(Ag2S). Bright Silver on raised areas. High Contrast.''
      | Extreme \<Rightarrow>
          ''**HEAVY SULFURIZATION**. Matte Black crust covering 80% of surface. '' @
          ''Raw silver only visible on sharpest edges.'')"

definition material_ammonia :: "int \<Rightarrow> PatinaVariation \<Rightarrow> string" where
  "material_ammonia patinaIntensity patinaVariation =
      [CHR 0x0A] @
      ''      **[MATERIAL PIPELINE: AMMONIA VAPOR PATINA]**'' @ [CHR 0x0A] @
      ''      - **Target Surfaces**: Copper, Brass, Bronze exposed to '' @
      ''Ammonia/Salt fuming.'' @ [CHR 0x0A] @
      ''      - **Intensity**: '' @ String_number patinaIntensity @ ''% Coverage.'' @ [CHR 0x0A] @
      ''      - **Physics Simulation**:'' @ [CHR 0x0A] @
      ''         1. **Fuming Process**: Render the patina as a result '' @
      ''of chemical vapor interaction. It should appear organic, blooming, '' @
      ''and crystalline.'' @ [CHR 0x0A] @
      ''         2. **Color Palette**: Focus on **IRIDESCENT RAINBOW** '' @
      ''spectrum: Deep Blues, Teals, Magentas, Purples, and Golds.'' @ [CHR 0x0A] @
      ''         3. **Texture**: Mix of smooth iridescent stains (thin '' @
      ''film interference) and rough, matte salt crystals (thick accumulation).'' @ [CHR 0x0A] @
      ''      - **Variation Mode**: '' @ ammoniaVar patinaVariation @ [CHR 0x0A] @
      ''      - **Interaction**: High specular iridescence in thin areas, '' @
      ''matte/diffuse in heavy blue/crystalline areas.'' @ [CHR 0x0A] @
      ''      ''"

definition material_patina :: "int \<Rightarrow> PatinaVariation \<Rightarrow> string" where
  "material_patina patinaIntensity patinaVariation =
      [CHR 0x0A] @
      ''      **[MATERIAL PIPELINE: AGED PATINA & OXIDATION]**'' @ [CHR 0x0A] @
      ''      - **Target Surfaces**: Ancient Bronze, Weathered Copper, '' @ ''Aged Brass.'' @
      [CHR 0x0A] @
      ''      - **Intensity**: '' @ String_number patinaIntensity @ ''% Coverage.'' @ [CHR 0x0A] @
      ''      - **Texture Engine**:'' @ [CHR 0x0A] @
      ''         1. **Layering**: Render the patina as a PHYSICAL layer '' @
      ''sitting ON TOP of the metal, not just a color change. It must '' @
      ''look chalky, matte, and dry.'' @ [CHR 0x0A] @
      ''         2. **Color Palette**: Focus on **Blue/Green/Teal** '' @
      ''spectrum (Verdigris/Malachite) for copper alloys.'' @ [CHR 0x0A] @
      ''         3. **Iridescence**: **CRITICAL**. At the transition '' @
      ''zones where the patina thins out to reveal raw metal, render '' @
      ''**oil-slick iridescence** (Subtle purple/gold heat stains).'' @ [CHR 0x0A] @
      ''      - **Variation Mode**: '' @ variationDesc patinaVariation @ [CHR 0x0A] @
      ''      - **Roughness**: High roughness (Matte) for oxidized areas, '' @
      ''Low roughness (Shiny) for exposed metal ridges.'' @ [CHR 0x0A] @
      ''      ''"

definition depth :: "int \<Rightarrow> string" where
  "depth patinaIntensity =
    (if patinaIntensity < 30 then ''SURFACE DUSTING''
     else if patinaIntensity < 70 then ''HEAVY OXIDATION'' else ''ANCIENT CRUST'')"

definition patinaDesc :: "int \<Rightarrow> PatinaVariation \<Rightarrow> string" where
  "patinaDesc patinaIntensity patinaVariation =
    (if patinaIntensity > 0 then
      [CHR 0x0A] @
      ''          - **PATINA ENGINE ('' @ depth patinaIntensity @ '' - '' @
      String_number patinaIntensity @ ''%)**:'' @ [CHR 0x0A] @
      ''             1. **Coverage**: Apply '' @ String_number patinaIntensity @
      ''% coverage of oxidation effects, primarily in crevices and textured '' @ ''areas.'' @
      [CHR 0x0A] @
      ''             2. **Palette**: '' @ varInstruction patinaVariation @ [CHR 0x0A] @
      ''             3. **Micro-Texture**: The patina must appear physically '' @
      ''raised/layered on top of the metal. It should have a matte, '' @
      ''chalky finish contrasting with the shiny raw metal.'' @ [CHR 0x0A] @
      ''             4. **Iridescence**: If copper/bronze, specifically '' @
      ''simulate heat-treatment interference colors (rainbow effect) '' @
      ''at the transition zones between raw metal and oxidation.'' @ [CHR 0x0A] @
      ''          ''
     else
      ''- **PATINA**: None. Show pristine, factory-new metal.'')"

definition material_metal :: "int \<Rightarrow> PatinaVariation \<Rightarrow> string" where
  "material_metal patinaIntensity patinaVariation =
      [CHR 0x0A] @
      ''      **[MATERIAL PIPELINE: ADVANCED METALLURGY]**'' @ [CHR 0x0A] @
      ''      - **Target Surfaces**: Copper, Brass, Bronze, Gold, Anodized '' @ ''Aluminum.'' @
      [CHR 0x0A] @
      ''      - **Surface Finishes**: '' @ [CHR 0x0A] @
      ''         1. **Brushed**: Render distinct, directional micro-scratches '' @
      ''(anisotropic).'' @ [CHR 0x0A] @
      ''         2. **Polished**: Render high-contrast mirror-like reflections '' @
      ''with high Index of Refraction (IOR).'' @ [CHR 0x0A] @
      ''         3. **Anodized**: Render a matte metallic sheen with '' @
      ''deep color saturation and uniform diffusion.'' @ [CHR 0x0A] @
      ''      '' @ patinaDesc patinaIntensity patinaVariation @ [CHR 0x0A] @
      ''      - **Interaction**: The surface must appear cold. Specular '' @
      ''highlights should be sharp (low roughness) for polished areas '' @
      ''and spread out/diffused for oxidized areas.'' @ [CHR 0x0A] @
      ''      ''"

definition tarnishDepth :: "int \<Rightarrow> string" where
  "tarnishDepth patinaIntensity =
    (if patinaIntensity < 30 then ''LIGHT TARNISH''
     else if patinaIntensity < 70 then ''VINTAGE AGING'' else ''ANTIQUE BLACKENING'')"

definition tarnishDesc :: "int \<Rightarrow> PatinaVariation \<Rightarrow> string" where
  "tarnishDesc patinaIntensity patinaVariation =
    (if patinaIntensity > 0 then
      [CHR 0x0A] @
      ''          - **TARNISH ENGINE ('' @ tarnishDepth patinaIntensity @ '' - '' @
      String_number patinaIntensity @ ''%)**:'' @ [CHR 0x0A] @
      ''             1. **Coverage**: Apply '' @ String_number patinaIntensity @
      ''% coverage of Silver Sulfide tarnish.'' @ [CHR 0x0A] @
      ''             2. **Palette**: Neutral Greys, Blacks, and subtle '' @
      ''Yellow/Blue interference colors. **NO GREEN/VERDIGRIS**.'' @ [CHR 0x0A] @
      ''             3. **Physics**: Tarnish accumulates deeply in recesses '' @
      ''(Intaglio). Raised surfaces must remain bright due to '' @ [CHR 0x27] @
      ''handling/polishing'' @ [CHR 0x27] @ ''.'' @ [CHR 0x0A] @
      ''             4. **Variation**: '' @ tarnishVar patinaVariation @ [CHR 0x0A] @
      ''          ''
     else
      ''- **PURITY**: 99.9% Fine Silver / Sterling. Ultra-bright, white-hot '' @
      ''specular highlights.'')"

definition material_silver :: "int \<Rightarrow> PatinaVariation \<Rightarrow> string" where
  "material_silver patinaIntensity patinaVariation =
      [CHR 0x0A] @
      ''      **[MATERIAL PIPELINE: PRECIOUS SILVER]**'' @ [CHR 0x0A] @
      ''      - **Target Surfaces**: Sterling Silver (925), Fine Silver '' @
      ''(999), Platinum, White Gold, Chrome.'' @ [CHR 0x0A] @
      ''      - **Tone**: **NEUTRAL COOL WHITE**. Strictly remove any '' @
      ''yellow/gold/copper casts unless specified by tarnish settings.'' @ [CHR 0x0A] @
      ''      - **Reflectivity**: MAXIMUM. Silver has the highest reflectivity '' @
      ''of all metals.'' @ [CHR 0x0A] @
      ''      - **Surface Finishes**: '' @ [CHR 0x0A] @
      ''         1. **High Polish**: Mirror finish. Reflections must '' @ ''be white.'' @
      [CHR 0x0A] @
      ''         2. **Satin/Matte**: Frosted silver texture, soft white '' @ ''diffusion.'' @
      [CHR 0x0A] @
      ''      '' @ tarnishDesc patinaIntensity patinaVariation @ [CHR 0x0A] @
      ''      - **Interaction**: Crisp, white specular highlights. Deep, '' @
      ''neutral dark reflections.'' @ [CHR 0x0A] @
      ''      ''"

definition material_stone :: string where
  "material_stone =
      [CHR 0x0A] @
      ''      **[MATERIAL PIPELINE: GEMSTONE & MINERALS]**'' @ [CHR 0x0A] @
      ''      - **Target Surfaces**: Quartz, Sandstone, Marble, Agate, '' @
      ''Labradorite, Azurite, Granite.'' @ [CHR 0x0A] @
      ''      - **Texture Enhancement**:'' @ [CHR 0x0A] @
      ''         1. **Crystalline (Quartz/Amethyst)**: Emphasize **Subsurface '' @
      ''Scattering (SSS)**. The edges should appear semi-translucent. '' @
      ''Enhance internal fractures and facets.'' @ [CHR 0x0A] @
      ''         2. **Sedimentary (Sandstone)**: Maximize **Granular '' @
      ''Detail**. The surface should look rough, porous, and matte with '' @
      ''high micro-shadowing.'' @ [CHR 0x0A] @
      ''         3. **Metamorphic (Marble/Agate)**: Sharpen the **Veining**. '' @
      ''Ensure the polish looks glassy (high gloss) while the veins '' @ ''have depth.'' @
      [CHR 0x0A] @
      ''         4. **Iridescent (Labradorite/Opal)**: **CRITICAL**: '' @
      ''Enhance the **Labradorescence/Play-of-Color**. Boost the visibility '' @
      ''of the internal blue/gold/green flashes.'' @ [CHR 0x0A] @
      ''      - **Interaction**: Distinct separation between matte raw '' @
      ''stone and polished faces.'' @ [CHR 0x0A] @
      ''      ''"

definition intensityDesc :: "int \<Rightarrow> string" where
  "intensityDesc textureIntensity =
    (if textureIntensity < 30 then ''SUBTLE: Smooth finish, fine grain, delicate weave.''
     else if textureIntensity < 70 then ''NATURAL: Visible tactile details, standard roughness.''
     else ''INTENSE: Deep displacement, rough surface, pronounced grain/weave, high micro-contrast.'')"

definition material_texture :: "int \<Rightarrow> string" where
  "material_texture textureIntensity =
      [CHR 0x0A] @
      ''      **[MATERIAL PIPELINE: HIGH-FIDELITY ORGANIC & TEXTURE]**'' @ [CHR 0x0A] @
      ''      - **Intensity Level**: '' @ String_number textureIntensity @ ''/100 ('' @
      intensityDesc textureIntensity @ '')'' @ [CHR 0x0A] @
      ''      - **Target Surfaces**: Wood, Fabric, Leather, Glass.'' @ [CHR 0x0A] @
      ''      - **Wood**: enhance grain contrast and pore detail according '' @ ''to intensity.'' @
      [CHR 0x0A] @
      ''      - **Fabric/Leather**: render visible weave/stitch patterns '' @
      ''and micro-fiber texture.'' @ [CHR 0x0A] @
      ''      - **Glass/Transparent**: Maximize transmission and refraction. '' @
      ''Render internal caustics if applicable. Clear, sharp edges.'' @ [CHR 0x0A] @
      ''      - **Interaction**: The surface must invite '' @ [CHR 0x22] @ ''touch'' @ [CHR 0x22] @
      ''. Focus on micro-displacement mapping effects matching the requested '' @ ''intensity.'' @
      [CHR 0x0A] @
      ''      ''"

definition material_default :: string where
  "material_default =
      [CHR 0x0A] @
      ''      **[MATERIAL PIPELINE: STANDARD PRODUCT]**'' @ [CHR 0x0A] @
      ''      - Accurately identify materials (Plastic, Ceramic, Electronics, '' @
      ''Packaging).'' @ [CHR 0x0A] @
      ''      - Apply Physically Based Rendering (PBR) standards: correct '' @
      ''roughness, metallicity, and diffuse values.'' @ [CHR 0x0A] @
      ''      - If plastic: Add subtle Subsurface Scattering (SSS) on '' @ ''thin edges.'' @
      [CHR 0x0A] @
      ''      ''"

definition getMaterialInstructions ::
  "MaterialType option \<Rightarrow> int option \<Rightarrow> int option \<Rightarrow> PatinaVariation option \<Rightarrow> string" where
  "getMaterialInstructions type_arg textureIntensity_arg patinaIntensity_arg patinaVariation_arg =
    (let type = or_default type_arg Standard;
         textureIntensity = or_default textureIntensity_arg 50;
         patinaIntensity = or_default patinaIntensity_arg 0;
         patinaVariation = or_default patinaVariation_arg StandardVariation
     in case type of
          Ammonia \<Rightarrow> material_ammonia patinaIntensity patinaVariation
        | Patina \<Rightarrow> material_patina patinaIntensity patinaVariation
        | Metal \<Rightarrow> material_metal patinaIntensity patinaVariation
        | Silver \<Rightarrow> material_silver patinaIntensity patinaVariation
        | Stone \<Rightarrow> material_stone
        | Texture \<Rightarrow> material_texture textureIntensity
        | Standard \<Rightarrow> material_default)"

definition no_memory_text :: string where
  "no_memory_text =
      ''No previous learning data available. Use standard best practices.''"

definition getSystemPrompt ::
  "MaterialType \<Rightarrow> int option \<Rightarrow> ShadowIntensity option \<Rightarrow> int option \<Rightarrow> bool option \<Rightarrow>
   int option \<Rightarrow> int option \<Rightarrow> PatinaVariation option \<Rightarrow> string option \<Rightarrow> string" where
  "getSystemPrompt materialType shadowAngle shadowIntensity backgroundDistance enhancedLighting
       textureIntensity patinaIntensity patinaVariation memoryContext_arg =
    (let memoryContext = or_default memoryContext_arg [] in
      [CHR 0x0A] @
      ''### SYSTEM ROLE'' @ [CHR 0x0A] @
      ''You are a specialized AI Imaging Engine (Nano Banana 2 / Gemini '' @
      ''3 Pro) for Commercial Product Photography.'' @ [CHR 0x0A] @
      ''Your goal: **TRANSFIGURE** raw input photos into **Production-Ready '' @
      ''Advertisement Assets**.'' @ [CHR 0x0A] @
      [CHR 0x0A] @
      ''### MANDATORY PRE-PROCESSING (CLEANUP)'' @ [CHR 0x0A] @
      ''**CRITICAL:** Before generating the new image, you must strictly '' @ ''perform:'' @
      [CHR 0x0A] @
      ''1. **DELETE** all original cast shadows from the source image.'' @ [CHR 0x0A] @
      ''2. **ERASE** any black outlines, strokes, or '' @ [CHR 0x22] @ ''cutout artifacts'' @
      [CHR 0x22] @ '' surrounding the object.'' @ [CHR 0x0A] @
      ''3. The object must be perfectly isolated before being placed '' @
      ''into the new lighting environment.'' @ [CHR 0x0A] @
      [CHR 0x0A] @
      ''### OUTPUT PARAMETERS'' @ [CHR 0x0A] @
      ''1. **Camera**: Hasselblad X2D 100C + 90mm Macro Lens.'' @ [CHR 0x0A] @
      ''2. **Settings**: f/8 Aperture (Deep depth of field, razor sharp), '' @
      ''ISO 50, 1/200s.'' @ [CHR 0x0A] @
      ''3. **Background**: PURE WHITE (#FFFFFF) Studio Cyclorama. Zero '' @ ''texture.'' @
      [CHR 0x0A] @
      ''4. **Viewpoint**: Top-Down (Flat Lay).'' @ [CHR 0x0A] @
      [CHR 0x0A] @
      ''### ADAPTIVE LEARNING (USER MEMORY)'' @ [CHR 0x0A] @
      (if memoryContext \<noteq> [] then memoryContext else no_memory_text) @ [CHR 0x0A] @
      [CHR 0x0A] @
      ''### LIGHTING SIMULATION'' @ [CHR 0x0A] @
      getShadowInstructions shadowAngle shadowIntensity backgroundDistance enhancedLighting @
      [CHR 0x0A] @
      [CHR 0x0A] @
      ''### MATERIAL & TEXTURE ENHANCEMENT'' @ [CHR 0x0A] @
      getMaterialInstructions (Some materialType) (Some (or_default textureIntensity 50))
        (Some (or_default patinaIntensity 0))
        (Some (or_default patinaVariation StandardVariation)) @
      [CHR 0x0A] @
      [CHR 0x0A] @
      ''### EXECUTION PROTOCOL'' @ [CHR 0x0A] @
      ''1. **Clean**: Remove artifacts, outlines, and old shadows.'' @ [CHR 0x0A] @
      ''2. **Relight**: Apply the calculated directional lighting and '' @ ''shadow casting.'' @
      [CHR 0x0A] @
      ''3. **Enhance**: Apply the specific material pipeline (Metal/Stone/Texture/Standard/A'' @
      ''mmonia) with requested intensity.'' @ [CHR 0x0A] @
      ''4. **Refine**: Sharpen textures, boost contrast, and ensure '' @ ''color accuracy.'' @
      [CHR 0x0A] @
      [CHR 0x0A] @
      ''### NEGATIVE CONSTRAINTS'' @ [CHR 0x0A] @
      ''- NO original background bleeding.'' @ [CHR 0x0A] @
      ''- NO cartoonish black outlines.'' @ [CHR 0x0A] @
      ''- NO modifying the product'' @ [CHR 0x27] @ ''s actual shape or logo text.'' @ [CHR 0x0A] @
      ''- NO artifacts in the white background.'' @ [CHR 0x0A])"

text \<open>
  \<open>generateProPhoto\<close> builds one request for the generation service: the compiled
  prompt, the inline image and the image configuration. It throws before building it
  when the environment has no API key, and it turns the response into a result or an
  error.
\<close>

record GenerateContentRequest =
  model :: string
  text_part :: string
  inlineData_data :: string
  inlineData_mimeType :: string
  imageSize :: string
  config_aspectRatio :: AspectRatio

record JsError =
  message :: "string option"
  status_code :: "int option"

record GeneratedImageResult =
  imageData :: string
  result_mimeType :: string

record ResponsePart =
  part_data :: "string option"
  part_mimeType :: "string option"

definition generateProPhoto_request ::
  "string \<Rightarrow> string \<Rightarrow> MaterialType option \<Rightarrow> int option \<Rightarrow> ShadowIntensity option \<Rightarrow>
   int option \<Rightarrow> AspectRatio option \<Rightarrow> bool option \<Rightarrow> int option \<Rightarrow> int option \<Rightarrow>
   PatinaVariation option \<Rightarrow> string option \<Rightarrow> GenerateContentRequest" where
  "generateProPhoto_request base64Image mime materialType_arg shadowAngle_arg shadowIntensity_arg
       backgroundDistance_arg aspectRatio_arg enhancedLighting_arg textureIntensity_arg
       patinaIntensity_arg patinaVariation_arg memoryContext_arg =
    \<lparr> model = ''gemini-3-pro-image-preview'',
      text_part =
        getSystemPrompt (or_default materialType_arg Standard)
          (Some (or_default shadowAngle_arg 135))
          (Some (or_default shadowIntensity_arg Soft))
          (Some (or_default backgroundDistance_arg 0))
          (Some (or_default enhancedLighting_arg False))
          (Some (or_default textureIntensity_arg 50))
          (Some (or_default patinaIntensity_arg 0))
          (Some (or_default patinaVariation_arg StandardVariation))
          (Some (or_default memoryContext_arg [])),
      inlineData_data = base64Image,
      inlineData_mimeType = mime,
      imageSize = ''2K'',
      config_aspectRatio = or_default aspectRatio_arg Ratio_1_1 \<rparr>"

definition no_api_key_error :: JsError where
  "no_api_key_error =
    \<lparr> message = Some ''API Key not found. Please connect your Google Cloud Project.'',
      status_code = None \<rparr>"

definition no_content_error :: JsError where
  "no_content_error = \<lparr> message = Some ''The AI model returned no content.'', status_code = None \<rparr>"

definition no_image_error :: JsError where
  "no_image_error = \<lparr> message = Some ''No image generated.'', status_code = None \<rparr>"

text \<open>The first part carrying inline data decides the result; an empty list of parts is
  not "no content".\<close>

definition generateProPhoto_result :: "ResponsePart list option \<Rightarrow> JsError + GeneratedImageResult" where
  "generateProPhoto_result parts =
    (case parts of
       None \<Rightarrow> Inl no_content_error
     | Some ps \<Rightarrow>
        (case find (\<lambda>p. \<not> falsy_string (part_data p)) ps of
           Some p \<Rightarrow> Inr \<lparr> imageData = or_default (part_data p) [],
                           result_mimeType =
                             (if falsy_string (part_mimeType p) then ''image/png''
                              else or_default (part_mimeType p) []) \<rparr>
         | None \<Rightarrow> Inl no_image_error))"

section \<open>Application state (src/App.tsx)\<close>

record HistoryItem =
  itemId :: string
  originalImage :: string
  generatedImage :: string
  timestamp :: nat
  status :: Status
  base64Data :: "string option"
  mimeType :: "string option"
  originalFilename :: "string option"
  materialType :: "MaterialType option"
  textureIntensity :: "int option"
  patinaIntensity :: "int option"
  patinaVariation :: "PatinaVariation option"
  shadowAngle :: "int option"
  shadowIntensity :: "ShadowIntensity option"
  backgroundDistance :: "int option"
  aspectRatio :: "AspectRatio option"
  enhancedLighting :: "bool option"
  rating :: "int option"

text \<open>A rating record as \<open>handleRate\<close> stores it under \<open>proshot_ratings\<close>.\<close>

record RatingRecord =
  id_r :: string
  rating_r :: int
  timestamp_r :: nat
  materialType_r :: "MaterialType option"
  shadowIntensity_r :: "ShadowIntensity option"
  shadowAngle_r :: "int option"
  backgroundDistance_r :: "int option"
  enhancedLighting_r :: "bool option"
  textureIntensity_r :: "int option"
  patinaIntensity_r :: "int option"
  patinaVariation_r :: "PatinaVariation option"
  aspectRatio_r :: "AspectRatio option"

text \<open>The settings state of the component (the names of the state variables, primed).\<close>

record Settings =
  materialType' :: MaterialType
  textureIntensity' :: int
  patinaIntensity' :: int
  isPatinaEnabled' :: bool
  patinaVariation' :: PatinaVariation
  shadowAngle' :: int
  shadowIntensity' :: ShadowIntensity
  backgroundDistance' :: int
  aspectRatio' :: AspectRatio
  enhancedLighting' :: bool

text \<open>
  The continuation of \<open>processQueueItem\<close> between its awaits: the throttle delay, the
  call of the generation service, the cooldown after a rate limit. A delay carries the
  time at which its timer is due.
\<close>

datatype Task =
    Idle
  | Throttle HistoryItem nat
  | Calling HistoryItem
  | Cooldown HistoryItem nat

record App =
  hasKey :: bool
  history :: "HistoryItem list"
  processingId :: "string option"
  error :: "string option"
  totalRatings :: nat
  aiMemorySize :: nat
  isQueueRunning :: bool
  settings :: Settings
  ratings_storage :: "RatingRecord list option"
  API_KEY :: "string option"
  now :: nat
  task :: Task
  sent :: "GenerateContentRequest list"

definition MAX_QUEUE_SIZE :: nat where
  "MAX_QUEUE_SIZE = 30"

definition initial_settings :: Settings where
  "initial_settings =
    \<lparr> materialType' = Standard, textureIntensity' = 50, patinaIntensity' = 0,
      isPatinaEnabled' = False, patinaVariation' = StandardVariation, shadowAngle' = 135,
      shadowIntensity' = Soft, backgroundDistance' = 0, aspectRatio' = Ratio_1_1,
      enhancedLighting' = True \<rparr>"

text \<open>The state of a freshly mounted component, for a given environment.\<close>

definition initial :: "RatingRecord list option \<Rightarrow> string option \<Rightarrow> App" where
  "initial stored key =
    \<lparr> hasKey = False, history = [], processingId = None, error = None,
      totalRatings = (case stored of None \<Rightarrow> 0 | Some rs \<Rightarrow> length rs),
      aiMemorySize = (case stored of None \<Rightarrow> 0 | Some rs \<Rightarrow> length (filter (\<lambda>r. rating_r r \<ge> 4) rs)),
      isQueueRunning = False, settings = initial_settings, ratings_storage = stored,
      API_KEY = key, now = 0, task = Idle, sent = [] \<rparr>"

subsection \<open>Preference aggregation: getAiMemoryContext\<close>

text \<open>
  \<open>getMode\<close> counts the values under their string keys and replaces the mode only when
  a count exceeds the largest count seen so far.
\<close>

fun getMode_loop ::
  "('a \<Rightarrow> string) \<Rightarrow> 'a list \<Rightarrow> (string \<rightharpoonup> nat) \<Rightarrow> nat \<Rightarrow> 'a \<Rightarrow> 'a" where
  "getMode_loop str [] counts maxCount mode = mode"
| "getMode_loop str (item # rest) counts maxCount mode =
    (let val = str item;
         c = or_default (counts val) 0 + 1;
         counts' = counts(val \<mapsto> c)
     in if c > maxCount then getMode_loop str rest counts' c item
        else getMode_loop str rest counts' maxCount mode)"

definition getMode :: "('a \<Rightarrow> string) \<Rightarrow> 'a list \<Rightarrow> 'a option" where
  "getMode str arr = (if arr = [] then None else Some (getMode_loop str arr Map.empty 0 (hd arr)))"

definition positiveExamples :: "RatingRecord list \<Rightarrow> RatingRecord list" where
  "positiveExamples ratings = filter (\<lambda>r. rating_r r \<ge> 4) ratings"

definition preferredShadow :: "RatingRecord list \<Rightarrow> ShadowIntensity option option" where
  "preferredShadow ratings =
     getMode (String_undefined String_ShadowIntensity) (map shadowIntensity_r (positiveExamples ratings))"

definition preferredMaterial :: "RatingRecord list \<Rightarrow> MaterialType option option" where
  "preferredMaterial ratings =
     getMode (String_undefined String_MaterialType) (map materialType_r (positiveExamples ratings))"

text \<open>\<open>Math.round(a / 45) * 45\<close> on an integer \<open>a\<close>: halves round upwards, and no integer
  is within rounding error of a half.\<close>

definition angle_bucket :: "int option \<Rightarrow> int" where
  "angle_bucket a = ((2 * or_default_number a 135 + 45) div 90) * 45"

definition preferredAngle :: "RatingRecord list \<Rightarrow> int option" where
  "preferredAngle ratings =
     getMode String_number (map (\<lambda>r. angle_bucket (shadowAngle_r r)) (positiveExamples ratings))"

definition likesEnhanced :: "RatingRecord list \<Rightarrow> bool" where
  "likesEnhanced ratings =
     (2 * length (filter (\<lambda>r. enhancedLighting_r r = Some True) (positiveExamples ratings))
        > length (positiveExamples ratings))"

definition prefersFloating :: "RatingRecord list \<Rightarrow> bool" where
  "prefersFloating ratings =
     (2 * length (filter (\<lambda>r. or_default_number (backgroundDistance_r r) 0 > 10) (positiveExamples ratings))
        > length (positiveExamples ratings))"

definition getAiMemoryContext :: "RatingRecord list option \<Rightarrow> string" where
  "getAiMemoryContext stored =
    (case stored of
       None \<Rightarrow> []
     | Some ratings \<Rightarrow>
        if positiveExamples ratings = [] then []
        else
            [CHR 0x0A] @
            ''    ### USER PREFERENCE PROFILE [Based on '' @
            String_number (int (length (positiveExamples ratings))) @ '' High-Rated Samples]'' @ [CHR 0x0A] @
            ''    - **Lighting Style**: Strong preference for '' @ [CHR 0x27] @
            String_null (String_undefined String_ShadowIntensity) (preferredShadow ratings) @ [CHR 0x27] @ '' shadow hardness.'' @ [CHR 0x0A] @
            ''    - **Material Bias**: Frequently rates '' @ [CHR 0x27] @
            String_null (String_undefined String_MaterialType) (preferredMaterial ratings) @ [CHR 0x27] @ '' renders highly.'' @ [CHR 0x0A] @
            ''    - **Lighting Setup**: '' @
            (if likesEnhanced ratings then ''Prefers complex, radiosity-rich lighting (Enhanced Mode).'' else ''Prefers standard, simpler lighting.'') @
            [CHR 0x0A] @
            ''    - **Spatial Relation**: '' @
            (if prefersFloating ratings then ''Often prefers floating/levitating product compositions.'' else ''Prefers grounded, realistic placement.'') @
            [CHR 0x0A] @
            ''    - **Angle Tendency**: Historically prefers lighting from '' @ ''approx '' @
            String_null String_number (preferredAngle ratings) @ [CHR 0xEC, CHR 0xA7, CHR 0xB8] @ ''.'' @ [CHR 0x0A] @
            ''    '' @ [CHR 0x0A] @
            ''    **INSTRUCTION**: Use these preferences to guide micro-decisions '' @
            ''in contrast, micro-contrast, and texture emphasis where the '' @
            ''prompt is ambiguous. If the current specific prompt conflicts '' @
            ''with memory, prioritize the CURRENT prompt, but apply the user'' @ [CHR 0x27] @
            ''s preferred aesthetic '' @ [CHR 0x22] @ ''flavor'' @ [CHR 0x22] @
            '' (e.g. contrast curve, saturation level).'' @ [CHR 0x0A] @
            ''    '')"

subsection \<open>The queue controller: processQueueItem and the scanning effect\<close>

definition missing_data_error :: JsError where
  "missing_data_error = \<lparr> message = Some ''Missing image data for processing'', status_code = None \<rparr>"

definition message_includes :: "JsError \<Rightarrow> string \<Rightarrow> bool" where
  "message_includes err s = (case message err of None \<Rightarrow> False | Some m \<Rightarrow> string_includes m s)"

definition isRateLimit :: "JsError \<Rightarrow> bool" where
  "isRateLimit err =
     (message_includes err ''429'' \<or> message_includes err ''quota'' \<or> status_code err = Some 429)"

definition isAuthError :: "JsError \<Rightarrow> bool" where
  "isAuthError err = message_includes err ''Requested entity was not found''"

definition mark_generating :: "string \<Rightarrow> HistoryItem list \<Rightarrow> HistoryItem list" where
  "mark_generating k prev = map (\<lambda>i. if itemId i = k then i\<lparr>status := Generating\<rparr> else i) prev"

definition mark_completed :: "string \<Rightarrow> string \<Rightarrow> HistoryItem list \<Rightarrow> HistoryItem list" where
  "mark_completed k generatedUri prev =
     map (\<lambda>i. if itemId i = k
               then i\<lparr>generatedImage := generatedUri, status := Completed, base64Data := None\<rparr>
               else i) prev"

definition mark_failed :: "string \<Rightarrow> HistoryItem list \<Rightarrow> HistoryItem list" where
  "mark_failed k prev =
     map (\<lambda>i. if itemId i = k then i\<lparr>status := Failed, base64Data := None\<rparr> else i) prev"

definition finally_block :: "App \<Rightarrow> App" where
  "finally_block s = s\<lparr>processingId := None, task := Idle\<rparr>"

definition catch_block :: "App \<Rightarrow> HistoryItem \<Rightarrow> JsError \<Rightarrow> App" where
  "catch_block s item err =
    (let s1 = s\<lparr>history := mark_failed (itemId item) (history s)\<rparr> in
     if isAuthError err then
       finally_block (s1\<lparr>hasKey := False,
                         error := Some ''API Key session expired. Please select your key again.'',
                         isQueueRunning := False\<rparr>)
     else if isRateLimit err then s1\<lparr>task := Cooldown item (now s + 10000)\<rparr>
     else finally_block s1)"

definition processQueueItem :: "App \<Rightarrow> HistoryItem \<Rightarrow> App" where
  "processQueueItem s item =
    (let s1 = s\<lparr>processingId := Some (itemId item),
                 history := mark_generating (itemId item) (history s)\<rparr> in
     if falsy_string (base64Data item) \<or> falsy_string (mimeType item)
     then catch_block s1 item missing_data_error
     else s1\<lparr>task := Throttle item (now s + 1000)\<rparr>)"

text \<open>The request \<open>processQueueItem\<close> asks \<open>generateProPhoto\<close> to build for an item.\<close>

definition item_request :: "HistoryItem \<Rightarrow> string \<Rightarrow> GenerateContentRequest" where
  "item_request item memoryContext =
     generateProPhoto_request (or_default (base64Data item) []) (or_default (mimeType item) [])
       (Some (or_default (materialType item) Standard))
       (shadowAngle item)
       (shadowIntensity item)
       (backgroundDistance item)
       (Some (or_default (aspectRatio item) Ratio_1_1))
       (enhancedLighting item)
       (Some (or_default_number (textureIntensity item) 50))
       (Some (or_default_number (patinaIntensity item) 0))
       (Some (or_default (patinaVariation item) StandardVariation))
       (Some memoryContext)"

text \<open>After the throttle delay: the memory context is read and the service is called.\<close>

definition after_throttle :: "App \<Rightarrow> HistoryItem \<Rightarrow> App" where
  "after_throttle s item =
    (let memoryContext = getAiMemoryContext (ratings_storage s) in
     if falsy_string (API_KEY s) then catch_block s item no_api_key_error
     else s\<lparr>sent := sent s @ [item_request item memoryContext], task := Calling item\<rparr>)"

definition on_success :: "App \<Rightarrow> HistoryItem \<Rightarrow> GeneratedImageResult \<Rightarrow> App" where
  "on_success s item result =
    (let generatedUri = ''data:'' @ result_mimeType result @ '';base64,'' @ imageData result in
     finally_block (s\<lparr>history := mark_completed (itemId item) generatedUri (history s)\<rparr>))"

definition nextItem :: "HistoryItem list \<Rightarrow> HistoryItem option" where
  "nextItem h = find (\<lambda>item. status item = Queued) h"

definition queue_effect :: "App \<Rightarrow> App" where
  "queue_effect s =
    (if \<not> isQueueRunning s then s
     else if \<not> falsy_string (processingId s) then s
     else (case nextItem (history s) of
             Some item \<Rightarrow> processQueueItem s item
           | None \<Rightarrow> s\<lparr>isQueueRunning := False\<rparr>))"

subsection \<open>Submission: processUploadedFiles\<close>

text \<open>A picked file with what reading it gives (\<open>None\<close>: the reader fails) and the random
  suffix drawn for its id.\<close>

record UploadedFile =
  file_name :: string
  file_type :: string
  file_size :: nat
  file_dataUri :: "string option"
  random_suffix :: string

definition valid_file :: "UploadedFile \<Rightarrow> bool" where
  "valid_file file = (startsWith (file_type file) ''image/'' \<and> \<not> file_size file > 10 * 1024 * 1024)"

definition activeCount :: "HistoryItem list \<Rightarrow> nat" where
  "activeCount h = length (filter (\<lambda>i. status i = Queued \<or> status i = Generating) h)"

definition queue_limit_message :: "nat \<Rightarrow> string" where
  "queue_limit_message currentActiveCount =
     ''Queue limit reached ('' @ String_number (int MAX_QUEUE_SIZE) @ ''). You can only add '' @
     String_number (int MAX_QUEUE_SIZE - int currentActiveCount) @ '' more images.''"

definition new_item :: "App \<Rightarrow> UploadedFile \<Rightarrow> HistoryItem option" where
  "new_item s file =
    (case file_dataUri file of
       None \<Rightarrow> None
     | Some displayUri \<Rightarrow>
        Some \<lparr> itemId = String_number (int (now s)) @ random_suffix file,
               originalImage = displayUri,
               generatedImage = [],
               timestamp = now s,
               status = Queued,
               base64Data = at_index (split_on CHR '','' displayUri) 1,
               mimeType = Some (file_type file),
               originalFilename = Some (file_name file),
               materialType = Some (materialType' (settings s)),
               textureIntensity = Some (textureIntensity' (settings s)),
               patinaIntensity =
                 Some (if isPatinaEnabled' (settings s) then patinaIntensity' (settings s) else 0),
               patinaVariation = Some (patinaVariation' (settings s)),
               shadowAngle = Some (shadowAngle' (settings s)),
               shadowIntensity = Some (shadowIntensity' (settings s)),
               backgroundDistance = Some (backgroundDistance' (settings s)),
               aspectRatio = Some (aspectRatio' (settings s)),
               enhancedLighting = Some (enhancedLighting' (settings s)),
               rating = None \<rparr>)"

text \<open>
  The files are taken in the order in which their reads resolve. The capacity test and
  the prepend are one step on one state: the source tests the store and captures the
  settings when it is called, awaits the reads, and prepends to the store of that later
  moment. The rejections return before any read is awaited.
\<close>

definition processUploadedFiles :: "App \<Rightarrow> UploadedFile list \<Rightarrow> App" where
  "processUploadedFiles s fileList =
    (let validFiles = filter valid_file fileList in
     if validFiles = [] then
       s\<lparr>error := Some ''No valid images selected (Max 10MB, JPG/PNG/WEBP).''\<rparr>
     else
       let currentActiveCount = activeCount (history s) in
       if currentActiveCount + length validFiles > MAX_QUEUE_SIZE then
         s\<lparr>error := Some (queue_limit_message currentActiveCount)\<rparr>
       else
         let newItems = List.map_filter (new_item s) validFiles in
         s\<lparr>error := None, history := newItems @ history s\<rparr>)"

definition handleFileUpload :: "App \<Rightarrow> UploadedFile list \<Rightarrow> App" where
  "handleFileUpload s files = (if files = [] then s else processUploadedFiles s files)"

subsection \<open>Resubmission, rating, clearing\<close>

definition regenerated :: "App \<Rightarrow> HistoryItem \<Rightarrow> HistoryItem" where
  "regenerated s item =
    (let parts = split_on CHR '','' (originalImage item);
         meta = hd parts;
         mime = (case mimeMatch meta of Some g \<Rightarrow> g | None \<Rightarrow> ''image/png'')
     in item\<lparr> status := Queued,
              generatedImage := [],
              base64Data := at_index parts 1,
              mimeType := Some mime,
              materialType := Some (materialType' (settings s)),
              textureIntensity := Some (textureIntensity' (settings s)),
              patinaIntensity :=
                Some (if isPatinaEnabled' (settings s) then patinaIntensity' (settings s) else 0),
              patinaVariation := Some (patinaVariation' (settings s)),
              shadowAngle := Some (shadowAngle' (settings s)),
              shadowIntensity := Some (shadowIntensity' (settings s)),
              backgroundDistance := Some (backgroundDistance' (settings s)),
              aspectRatio := Some (aspectRatio' (settings s)),
              enhancedLighting := Some (enhancedLighting' (settings s)),
              timestamp := now s \<rparr>)"

definition handleRegenerate :: "App \<Rightarrow> string \<Rightarrow> App" where
  "handleRegenerate s k =
     s\<lparr>history := map (\<lambda>item. if itemId item \<noteq> k then item else regenerated s item) (history s)\<rparr>"

definition ratingRecord :: "HistoryItem \<Rightarrow> int \<Rightarrow> nat \<Rightarrow> RatingRecord" where
  "ratingRecord item r t =
    \<lparr> id_r = itemId item, rating_r = r, timestamp_r = t,
      materialType_r = materialType item,
      shadowIntensity_r = shadowIntensity item,
      shadowAngle_r = shadowAngle item,
      backgroundDistance_r = backgroundDistance item,
      enhancedLighting_r = enhancedLighting item,
      textureIntensity_r = textureIntensity item,
      patinaIntensity_r = patinaIntensity item,
      patinaVariation_r = patinaVariation item,
      aspectRatio_r = aspectRatio item \<rparr>"

text \<open>The update of the stored array: replace at the index found, push otherwise.\<close>

definition record_rating :: "RatingRecord list \<Rightarrow> string \<Rightarrow> RatingRecord \<Rightarrow> RatingRecord list" where
  "record_rating ratingsArray k rec =
    (case findIndex (\<lambda>r. id_r r = k) ratingsArray of
       Some existingIndex \<Rightarrow> ratingsArray[existingIndex := rec]
     | None \<Rightarrow> ratingsArray @ [rec])"

definition handleRate :: "App \<Rightarrow> string \<Rightarrow> int \<Rightarrow> App" where
  "handleRate s k r =
    (let s1 = s\<lparr>history := map (\<lambda>item. if itemId item = k then item\<lparr>rating := Some r\<rparr> else item)
                              (history s)\<rparr>
     in case find (\<lambda>i. itemId i = k) (history s) of
          None \<Rightarrow> s1
        | Some item \<Rightarrow>
           let ratingsArray =
                 record_rating (or_default (ratings_storage s) []) k (ratingRecord item r (now s))
           in s1\<lparr>ratings_storage := Some ratingsArray,
                 totalRatings := length ratingsArray,
                 aiMemorySize := length (filter (\<lambda>x. rating_r x \<ge> 4) ratingsArray)\<rparr>)"

definition handleClearHistory :: "App \<Rightarrow> App" where
  "handleClearHistory s = s\<lparr>history := [], isQueueRunning := False\<rparr>"

subsection \<open>Events\<close>

text \<open>
  Every handler of the component and every resumption of \<open>processQueueItem\<close> is one
  event. The scanning effect is an event of its own: React runs it after a render in
  which the store, the in-flight marker or the run flag changed. A timer fires no
  earlier than it is due.
\<close>

datatype Event =
    Upload "UploadedFile list"
  | Regenerate string
  | Rate string int
  | Start
  | Pause
  | ClearHistory
  | KeyChecked bool
  | SelectKey bool
  | ChangeSettings Settings
  | Effect
  | Tick nat
  | TimerFires
  | Respond "ResponsePart list option"
  | Reject JsError

fun step :: "App \<Rightarrow> Event \<Rightarrow> App" where
  "step s (Upload files) = handleFileUpload s files"
| "step s (Regenerate k) = handleRegenerate s k"
| "step s (Rate k r) = handleRate s k r"
| "step s Start = s\<lparr>isQueueRunning := True\<rparr>"
| "step s Pause = s\<lparr>isQueueRunning := False\<rparr>"
| "step s ClearHistory = handleClearHistory s"
| "step s (KeyChecked selected) = s\<lparr>hasKey := selected\<rparr>"
| "step s (SelectKey opened) =
    (if opened then s\<lparr>hasKey := True\<rparr>
     else s\<lparr>error := Some ''Failed to select API key. Please try again.''\<rparr>)"
| "step s (ChangeSettings st) = s\<lparr>settings := st\<rparr>"
| "step s Effect = queue_effect s"
| "step s (Tick d) = s\<lparr>now := now s + d\<rparr>"
| "step s TimerFires =
    (case task s of
       Throttle item due \<Rightarrow> if due \<le> now s then after_throttle s item else s
     | Cooldown item due \<Rightarrow> if due \<le> now s then finally_block s else s
     | _ \<Rightarrow> s)"
| "step s (Respond parts) =
    (case task s of
       Calling item \<Rightarrow>
        (case generateProPhoto_result parts of
           Inr result \<Rightarrow> on_success s item result
         | Inl err \<Rightarrow> catch_block s item err)
     | _ \<Rightarrow> s)"
| "step s (Reject err) =
    (case task s of Calling item \<Rightarrow> catch_block s item err | _ \<Rightarrow> s)"

definition run :: "App \<Rightarrow> Event list \<Rightarrow> App" where
  "run s evs = foldl step s evs"

subsection \<open>Sample data\<close>

definition sample_file :: "string \<Rightarrow> UploadedFile" where
  "sample_file sfx =
    \<lparr> file_name = ''photo.png'', file_type = ''image/png'', file_size = 2048,
      file_dataUri = Some ''data:image/png;base64,AAAA'', random_suffix = sfx \<rparr>"

definition sample_item :: "string \<Rightarrow> Status \<Rightarrow> HistoryItem" where
  "sample_item k st =
    \<lparr> itemId = k, originalImage = ''data:image/png;base64,AAAA'', generatedImage = [],
      timestamp = 0, status = st, base64Data = Some ''AAAA'', mimeType = Some ''image/png'',
      originalFilename = Some ''photo.png'', materialType = Some Metal,
      textureIntensity = Some 50, patinaIntensity = Some 50,
      patinaVariation = Some StandardVariation, shadowAngle = Some 135,
      shadowIntensity = Some Soft, backgroundDistance = Some 0, aspectRatio = Some Ratio_1_1,
      enhancedLighting = Some True, rating = None \<rparr>"

definition stored_log :: "App \<Rightarrow> RatingRecord list" where
  "stored_log s = or_default (ratings_storage s) []"

definition stale_patina_state :: App where
  "stale_patina_state =
     (initial None None)\<lparr>history := [sample_item ''a'' Failed, sample_item ''b'' Completed],
                         settings := initial_settings\<lparr>patinaIntensity' := 80\<rparr>\<rparr>"



definition rated_twice :: App where
  "rated_twice = run ((initial None None)\<lparr>history := [sample_item ''a'' Completed]\<rparr>)
                   [Rate ''a'' 3, Rate ''a'' 5]"

definition two_batches :: App where
  "two_batches = run (initial None (Some ''key''))
     [Upload [sample_file ''a''], Tick 5, Upload [sample_file ''b''], Start]"

subsection \<open>Notions used to state the properties of getMode\<close>

text \<open>
  The running count of position \<open>k\<close> is the count the loop holds for the key of the
  \<open>k\<close>-th value right after reading it; \<open>mode_by_first_occurrence\<close> is the reduction
  the specification describes: the first value, in order, whose count is maximal.
\<close>

definition running_count :: "('a \<Rightarrow> string) \<Rightarrow> 'a list \<Rightarrow> nat \<Rightarrow> nat" where
  "running_count str arr k = count_list (map str (take (Suc k) arr)) (str (arr ! k))"

definition key_count :: "('a \<Rightarrow> string) \<Rightarrow> 'a list \<Rightarrow> 'a \<Rightarrow> nat" where
  "key_count str arr x = count_list (map str arr) (str x)"

definition mode_by_first_occurrence :: "('a \<Rightarrow> string) \<Rightarrow> 'a list \<Rightarrow> 'a option" where
  "mode_by_first_occurrence str arr =
     find (\<lambda>x. list_all (\<lambda>y. key_count str arr y \<le> key_count str arr x) arr) arr"

definition sample_rating :: "string \<Rightarrow> ShadowIntensity \<Rightarrow> int \<Rightarrow> RatingRecord" where
  "sample_rating k sh r =
    \<lparr> id_r = k, rating_r = r, timestamp_r = 0, materialType_r = Some Metal,
      shadowIntensity_r = Some sh, shadowAngle_r = Some 135, backgroundDistance_r = Some 0,
      enhancedLighting_r = Some True, textureIntensity_r = Some 50, patinaIntensity_r = Some 0,
      patinaVariation_r = Some StandardVariation, aspectRatio_r = Some Ratio_1_1 \<rparr>"

definition spec_example_log :: "RatingRecord list" where
  "spec_example_log = [sample_rating ''a'' Soft 4, sample_rating ''b'' Soft 5, sample_rating ''c'' Hard 3]"

definition tie_log :: "RatingRecord list" where
  "tie_log = [sample_rating ''a'' Soft 5, sample_rating ''b'' Hard 5,
              sample_rating ''c'' Hard 4, sample_rating ''d'' Soft 4]"

definition throttled_state :: App where
  "throttled_state =
     (initial None (Some ''key''))\<lparr>history := [sample_item ''a'' Generating],
        processingId := Some ''a'', isQueueRunning := True, now := 1000,
        task := Throttle (sample_item ''a'' Queued) 1000\<rparr>"

text \<open>The number of records of a list whose field has a given value.\<close>

definition field_count :: "('r \<Rightarrow> 'a) \<Rightarrow> 'r list \<Rightarrow> 'a \<Rightarrow> nat" where
  "field_count f rs v = length (filter (\<lambda>r. f r = v) rs)"

subsection \<open>Notions used to state the properties of the controller\<close>

text \<open>
  The ids of the jobs marked generating; the invariant of the controller, which ties the
  in-flight marker and the generating jobs to the continuation of \<open>processQueueItem\<close>;
  and the assumption on the environment under which it holds: the ids drawn for new
  jobs are distinct and not in the store (they are the time followed by nine random
  characters).
\<close>

definition generating_ids :: "HistoryItem list \<Rightarrow> string set" where
  "generating_ids h = itemId ` {i \<in> set h. status i = Generating}"

fun task_ok :: "Task \<Rightarrow> string option \<Rightarrow> string set \<Rightarrow> bool" where
  "task_ok Idle pid gen = (pid = None \<and> gen = {})"
| "task_ok (Throttle item due) pid gen =
     (pid = Some (itemId item) \<and> itemId item \<noteq> [] \<and> gen \<subseteq> {itemId item})"
| "task_ok (Calling item) pid gen =
     (pid = Some (itemId item) \<and> itemId item \<noteq> [] \<and> gen \<subseteq> {itemId item})"
| "task_ok (Cooldown item due) pid gen =
     (pid = Some (itemId item) \<and> itemId item \<noteq> [] \<and> gen = {})"

definition controller_inv :: "App \<Rightarrow> bool" where
  "controller_inv s \<longleftrightarrow>
     distinct (map itemId (history s)) \<and> [] \<notin> itemId ` set (history s) \<and>
     task_ok (task s) (processingId s) (generating_ids (history s))"

definition new_ids :: "App \<Rightarrow> UploadedFile list \<Rightarrow> string list" where
  "new_ids s files = map itemId (List.map_filter (new_item s) (filter valid_file files))"

definition fresh_ids :: "App \<Rightarrow> Event \<Rightarrow> bool" where
  "fresh_ids s e =
     (case e of
        Upload files \<Rightarrow>
          distinct (new_ids s files)
          \<and> list_all (\<lambda>k. k \<notin> set (map itemId (history s))) (new_ids s files)
      | _ \<Rightarrow> True)"

fun fresh_run :: "App \<Rightarrow> Event list \<Rightarrow> bool" where
  "fresh_run s [] = True"
| "fresh_run s (e # es) = (fresh_ids s e \<and> fresh_run (step s e) es)"

text \<open>The state while a job is in flight, the state during a cooldown, and the paused
  state after a credential failure.\<close>

definition in_flight :: "App \<Rightarrow> HistoryItem \<Rightarrow> bool" where
  "in_flight s item \<longleftrightarrow>
     distinct (map itemId (history s)) \<and> [] \<notin> itemId ` set (history s) \<and>
     processingId s = Some (itemId item) \<and> itemId item \<noteq> [] \<and>
     generating_ids (history s) \<subseteq> {itemId item}"



definition cooling :: "App \<Rightarrow> HistoryItem \<Rightarrow> nat \<Rightarrow> bool" where
  "cooling s item due \<longleftrightarrow>
     task s = Cooldown item due \<and> processingId s = Some (itemId item) \<and> itemId item \<noteq> []
     \<and> generating_ids (history s) = {}"

definition paused_idle :: "App \<Rightarrow> bool" where
  "paused_idle s \<longleftrightarrow>
     \<not> isQueueRunning s \<and> task s = Idle \<and> processingId s = None
     \<and> generating_ids (history s) = {}"



subsection \<open>Sample runs of the controller\<close>

definition job :: "string \<Rightarrow> Status \<Rightarrow> HistoryItem" where
  "job sfx st =
    \<lparr> itemId = CHR ''0'' # sfx, originalImage = ''data:image/png;base64,AAAA'', generatedImage = [],
      timestamp = 0, status = st, base64Data = Some ''AAAA'', mimeType = Some ''image/png'',
      originalFilename = Some ''photo.png'', materialType = Some Standard,
      textureIntensity = Some 50, patinaIntensity = Some 0,
      patinaVariation = Some StandardVariation, shadowAngle = Some 135,
      shadowIntensity = Some Soft, backgroundDistance = Some 0, aspectRatio = Some Ratio_1_1,
      enhancedLighting = Some True, rating = None \<rparr>"

definition warm_up :: "Event list" where
  "warm_up = [KeyChecked True, Upload [sample_file ''a'', sample_file ''b''], Start, Effect,
              Tick 1000, TimerFires]"

definition calling_state :: App where
  "calling_state = run (initial None (Some ''key'')) warm_up"

definition image_part :: ResponsePart where
  "image_part = \<lparr> part_data = Some ''BBBB'', part_mimeType = Some ''image/png'' \<rparr>"

definition quota_error :: JsError where
  "quota_error = \<lparr> message = Some ''429 quota exceeded'', status_code = Some 429 \<rparr>"

definition expired_error :: JsError where
  "expired_error = \<lparr> message = Some ''Requested entity was not found.'', status_code = Some 404 \<rparr>"

definition throttled_and_expired_error :: JsError where
  "throttled_and_expired_error =
     \<lparr> message = Some ''Requested entity was not found.'', status_code = Some 429 \<rparr>"

definition busy_trace :: "Event list" where
  "busy_trace = warm_up @ [Respond (Some [image_part]), Effect]"

section \<open>Evaluation lemmas\<close>

lemma String_number_0: "String_number 0 = ''0''"
  by (simp add: String_number_def String_nat.simps digit_def)

lemma String_number_50: "String_number 50 = ''50''"
  by (simp add: String_number_def String_nat.simps digit_def)

lemma material_texture_0_50: "material_texture 0 \<noteq> material_texture 50"
  by (simp add: material_texture_def String_number_0 String_number_50)

section \<open>Submission against the capacity ceiling\<close>

text \<open>
  C3. For every store and every non-empty batch of valid files, if the number of
  queued or generating jobs plus the size of the batch exceeds 30, the submission only
  sets the capacity error: the store is the one before, no job of the batch is added.
\<close>

theorem capacity_rejects_whole_batch:
  assumes "files \<noteq> []" and "\<forall>f \<in> set files. valid_file f"
    and "activeCount (history s) + length files > 30"
  shows "step s (Upload files) = s\<lparr>error := Some (queue_limit_message (activeCount (history s)))\<rparr>
         \<and> history (step s (Upload files)) = history s"
proof -
  from assms(2) have "filter valid_file files = files" by (simp add: filter_id_conv)
  with assms(1,3) show ?thesis
    by (simp add: handleFileUpload_def processUploadedFiles_def MAX_QUEUE_SIZE_def Let_def)
qed

theorem capacity_rejects_whole_batch_witness:
  "replicate 31 (sample_file ''x'') \<noteq> []
   \<and> list_all valid_file (replicate 31 (sample_file ''x''))
   \<and> activeCount (history (initial None None)) + length (replicate 31 (sample_file ''x'')) > 30
   \<and> history (step (initial None None) (Upload (replicate 31 (sample_file ''x'')))) = []
   \<and> error (step (initial None None) (Upload (replicate 31 (sample_file ''x''))))
       = Some (queue_limit_message 0)"
  using capacity_rejects_whole_batch [of "replicate 31 (sample_file ''x'')" "initial None None"]
  by (simp add: valid_file_def sample_file_def initial_def activeCount_def list_all_iff)

section \<open>The dispatch boundary\<close>

text \<open>
  C10. A job whose snapshot has texture intensity 0 is dispatched with the default 50:
  the request built for a texture job with intensity 0 is the request built for the same
  job with intensity 50, its prompt is compiled with 50, although the compiler itself
  tells 0 from 50.
\<close>

theorem texture_zero_dispatched_as_default:
  "item_request (item\<lparr>materialType := Some Texture, textureIntensity := Some 0\<rparr>) memoryContext
     = item_request (item\<lparr>materialType := Some Texture, textureIntensity := Some 50\<rparr>) memoryContext
   \<and> text_part (item_request (item\<lparr>materialType := Some Texture, textureIntensity := Some 0\<rparr>) memoryContext)
     = getSystemPrompt Texture
         (Some (or_default (shadowAngle item) 135)) (Some (or_default (shadowIntensity item) Soft))
         (Some (or_default (backgroundDistance item) 0)) (Some (or_default (enhancedLighting item) False))
         (Some 50) (Some (or_default_number (patinaIntensity item) 0))
         (Some (or_default (patinaVariation item) StandardVariation)) (Some memoryContext)
   \<and> getMaterialInstructions (Some Texture) (Some 0) p v \<noteq> getMaterialInstructions (Some Texture) (Some 50) p v"
  by (simp add: item_request_def generateProPhoto_request_def or_default_number_def or_default_def
      getMaterialInstructions_def material_texture_0_50)

theorem texture_zero_dispatched_as_default_witness:
  "item_request ((sample_item ''a'' Queued)\<lparr>materialType := Some Texture, textureIntensity := Some 0\<rparr>) []
     = item_request ((sample_item ''a'' Queued)\<lparr>materialType := Some Texture, textureIntensity := Some 50\<rparr>) []
   \<and> material_texture 0 \<noteq> material_texture 50"
  using texture_zero_dispatched_as_default
    [where item = "sample_item ''a'' Queued" and memoryContext = "[]" and p = None and v = None]
  by (simp add: getMaterialInstructions_def or_default_def)

section \<open>Resubmission\<close>

lemma findIndex_None: "findIndex P xs = None \<longleftrightarrow> (\<forall>x \<in> set xs. \<not> P x)"
  by (induction xs) auto

lemma findIndex_Some:
  "findIndex P xs = Some n \<Longrightarrow> n < length xs \<and> P (xs ! n) \<and> (\<forall>m < n. \<not> P (xs ! m))"
proof (induction xs arbitrary: n)
  case Nil
  then show ?case by simp
next
  case (Cons x xs)
  show ?case
  proof (cases "P x")
    case True
    with Cons.prems show ?thesis by simp
  next
    case False
    with Cons.prems obtain n' where n': "findIndex P xs = Some n'" "n = Suc n'"
      by auto
    from Cons.IH [OF n'(1)] False n'(2) show ?thesis
      by (auto simp: less_Suc_eq_0_disj)
  qed
qed

lemma find_first:
  "find P xs = Some x \<Longrightarrow> \<exists>n < length xs. xs ! n = x \<and> P x \<and> (\<forall>m < n. \<not> P (xs ! m))"
  by (auto simp: find_Some_iff)

lemma regenerated_fields:
  "let new = regenerated s old; st = settings s in
     status new = Queued \<and> generatedImage new = [] \<and>
     base64Data new = at_index (split_on CHR '','' (originalImage old)) 1 \<and>
     mimeType new = Some (case mimeMatch (hd (split_on CHR '','' (originalImage old))) of
                            Some g \<Rightarrow> g | None \<Rightarrow> ''image/png'') \<and>
     materialType new = Some (materialType' st) \<and>
     textureIntensity new = Some (textureIntensity' st) \<and>
     patinaIntensity new = Some (if isPatinaEnabled' st then patinaIntensity' st else 0) \<and>
     patinaVariation new = Some (patinaVariation' st) \<and>
     shadowAngle new = Some (shadowAngle' st) \<and>
     shadowIntensity new = Some (shadowIntensity' st) \<and>
     backgroundDistance new = Some (backgroundDistance' st) \<and>
     aspectRatio new = Some (aspectRatio' st) \<and>
     enhancedLighting new = Some (enhancedLighting' st) \<and>
     itemId new = itemId old \<and> originalImage new = originalImage old \<and> rating new = rating old"
  by (simp add: regenerated_def Let_def)

text \<open>
  C6 (amended). Resubmitting a job leaves the store's length and every job with another
  id as they were; the job itself becomes queued, its result is cleared, its image data
  is the part of the stored preview after the first comma and its media type the one
  named in the preview's header (\<open>image/png\<close> when none is found), and its snapshot is
  re-stamped from the current settings: material, texture intensity, variation, shadow
  angle, shadow intensity, background distance, aspect ratio and enhanced lighting are
  the current values, and the patina intensity is the current one when the patina switch
  is on and 0 when it is off. This holds for a job in any status, a failed one included.
\<close>

theorem regenerate_restamps_with_current_settings:
  assumes "n < length (history s)" and "itemId (history s ! n) = k"
  shows "let old = history s ! n; new = history (step s (Regenerate k)) ! n; st = settings s in
     status new = Queued \<and> generatedImage new = [] \<and>
     base64Data new = at_index (split_on CHR '','' (originalImage old)) 1 \<and>
     mimeType new = Some (case mimeMatch (hd (split_on CHR '','' (originalImage old))) of
                            Some g \<Rightarrow> g | None \<Rightarrow> ''image/png'') \<and>
     materialType new = Some (materialType' st) \<and>
     textureIntensity new = Some (textureIntensity' st) \<and>
     patinaIntensity new = Some (if isPatinaEnabled' st then patinaIntensity' st else 0) \<and>
     patinaVariation new = Some (patinaVariation' st) \<and>
     shadowAngle new = Some (shadowAngle' st) \<and>
     shadowIntensity new = Some (shadowIntensity' st) \<and>
     backgroundDistance new = Some (backgroundDistance' st) \<and>
     aspectRatio new = Some (aspectRatio' st) \<and>
     enhancedLighting new = Some (enhancedLighting' st) \<and>
     itemId new = itemId old \<and> originalImage new = originalImage old \<and> rating new = rating old \<and>
     length (history (step s (Regenerate k))) = length (history s) \<and>
     (\<forall>m < length (history s). itemId (history s ! m) \<noteq> k \<longrightarrow>
          history (step s (Regenerate k)) ! m = history s ! m)"
proof -
  have new: "history (step s (Regenerate k)) ! n = regenerated s (history s ! n)"
    using assms by (simp add: handleRegenerate_def)
  have rest: "length (history (step s (Regenerate k))) = length (history s) \<and>
     (\<forall>m < length (history s). itemId (history s ! m) \<noteq> k \<longrightarrow>
          history (step s (Regenerate k)) ! m = history s ! m)"
    by (simp add: handleRegenerate_def)
  show ?thesis
    unfolding Let_def new using regenerated_fields [of s "history s ! n"] rest
    by (simp add: Let_def)
qed

theorem regenerate_restamps_with_current_settings_witness:
  "(let new = history (step stale_patina_state (Regenerate ''a'')) ! 0 in
     status new = Queued \<and> generatedImage new = [] \<and> base64Data new = Some ''AAAA'' \<and>
     mimeType new = Some ''image/png'' \<and> materialType new = Some Standard \<and>
     patinaIntensity new = Some 0 \<and> itemId new = ''a'')
   \<and> history (step stale_patina_state (Regenerate ''a'')) ! 1 = sample_item ''b'' Completed"
  using regenerate_restamps_with_current_settings [of 0 stale_patina_state "''a''"]
  by (simp add: stale_patina_state_def initial_def sample_item_def initial_settings_def
      at_index_def Let_def)

text \<open>
  The snapshot is not the raw current values where the patina switch is off while the
  patina slider is not at 0: the resubmitted job is stamped with patina intensity 0, not
  with the current value 80.
\<close>

theorem regenerate_patina_counterexample:
  "status (history stale_patina_state ! 0) = Failed
   \<and> patinaIntensity' (settings stale_patina_state) = 80
   \<and> patinaIntensity (history (step stale_patina_state (Regenerate ''a'')) ! 0) = Some 0"
  by (simp add: stale_patina_state_def initial_def sample_item_def initial_settings_def
      handleRegenerate_def regenerated_def Let_def)

section \<open>The rating log\<close>

lemma record_rating_distinct:
  assumes "distinct (map id_r log)" and "id_r rec = k"
  shows "distinct (map id_r (record_rating log k rec))"
proof (cases "findIndex (\<lambda>r. id_r r = k) log")
  case None
  then have "k \<notin> set (map id_r log)" by (auto simp: findIndex_None)
  with assms None show ?thesis by (simp add: record_rating_def)
next
  case (Some n)
  from findIndex_Some [OF Some] have n: "n < length log" "id_r (log ! n) = k" by auto
  then have "map id_r (log[n := rec]) = map id_r log"
    using assms(2) by (simp add: map_update list_update_same_conv)
  with assms(1) Some show ?thesis by (simp add: record_rating_def)
qed

lemma record_rating_only:
  assumes "distinct (map id_r log)" and "id_r rec = k"
  shows "filter (\<lambda>x. id_r x = k) (record_rating log k rec) = [rec]"
proof -
  have d: "distinct (map id_r (record_rating log k rec))"
    by (rule record_rating_distinct [OF assms])
  have m: "rec \<in> set (record_rating log k rec)"
  proof (cases "findIndex (\<lambda>r. id_r r = k) log")
    case None
    then show ?thesis by (simp add: record_rating_def)
  next
    case (Some n)
    from findIndex_Some [OF Some] have "n < length log" by simp
    with Some show ?thesis by (simp add: record_rating_def set_update_memI)
  qed
  have "\<And>xs. distinct (map id_r xs) \<Longrightarrow> rec \<in> set xs \<Longrightarrow> filter (\<lambda>x. id_r x = id_r rec) xs = [rec]"
  proof -
    fix xs show "distinct (map id_r xs) \<Longrightarrow> rec \<in> set xs \<Longrightarrow> filter (\<lambda>x. id_r x = id_r rec) xs = [rec]"
    proof (induction xs)
      case Nil
      then show ?case by simp
    next
      case (Cons x xs)
      show ?case
      proof (cases "x = rec")
        case True
        with Cons.prems have "\<forall>y \<in> set xs. id_r y \<noteq> id_r rec" by (auto simp: image_iff)
        then have "filter (\<lambda>x. id_r x = id_r rec) xs = []" by (simp add: filter_empty_conv)
        with True show ?thesis by simp
      next
        case False
        with Cons.prems have r: "rec \<in> set xs" and dx: "distinct (map id_r xs)" by auto
        with Cons.prems have "id_r x \<noteq> id_r rec" by (auto simp: image_iff)
        with Cons.IH [OF dx r] show ?thesis by simp
      qed
    qed
  qed
  from this [OF d m] assms(2) show ?thesis by simp
qed

lemma record_rating_shape:
  "(if k \<in> id_r ` set log then length (record_rating log k rec) = length log
    else record_rating log k rec = log @ [rec])"
proof (cases "findIndex (\<lambda>r. id_r r = k) log")
  case None
  then have "k \<notin> id_r ` set log" by (auto simp: findIndex_None)
  with None show ?thesis by (simp add: record_rating_def)
next
  case (Some n)
  from findIndex_Some [OF Some] have "n < length log" "id_r (log ! n) = k" by auto
  then have "k \<in> id_r ` set log" by (metis imageI nth_mem)
  with Some show ?thesis by (simp add: record_rating_def)
qed

lemma record_rating_others:
  "id_r rec = k \<Longrightarrow> filter (\<lambda>x. id_r x \<noteq> k) (record_rating log k rec) = filter (\<lambda>x. id_r x \<noteq> k) log"
proof (cases "findIndex (\<lambda>r. id_r r = k) log")
  case None
  assume "id_r rec = k"
  with None show ?thesis by (simp add: record_rating_def)
next
  case (Some n)
  assume k: "id_r rec = k"
  from findIndex_Some [OF Some] have n: "n < length log" "id_r (log ! n) = k" by auto
  have "\<And>n. n < length log \<Longrightarrow> id_r (log ! n) = k \<Longrightarrow>
        filter (\<lambda>x. id_r x \<noteq> k) (log[n := rec]) = filter (\<lambda>x. id_r x \<noteq> k) log"
  proof (induction log)
    case Nil
    then show ?case by simp
  next
    case (Cons a log)
    then show ?case using k by (cases n) auto
  qed
  from this [OF n] Some show ?thesis by (simp add: record_rating_def)
qed

lemma stored_log_Rate:
  "find (\<lambda>i. itemId i = k) (history s) = Some item \<Longrightarrow>
   stored_log (step s (Rate k r)) = record_rating (stored_log s) k (ratingRecord item r (now s))"
  by (simp add: stored_log_def handleRate_def Let_def or_default_def)

lemma stored_log_step:
  "stored_log (step s e) = stored_log s \<or>
   (\<exists>k rec. id_r rec = k \<and> stored_log (step s e) = record_rating (stored_log s) k rec)"
proof (cases e)
  case (Rate k r)
  show ?thesis
  proof (cases "find (\<lambda>i. itemId i = k) (history s)")
    case None
    with Rate show ?thesis by (simp add: stored_log_def handleRate_def Let_def)
  next
    case (Some item)
    then have "itemId item = k" by (auto simp: find_Some_iff)
    then have "id_r (ratingRecord item r (now s)) = k" by (simp add: ratingRecord_def)
    with stored_log_Rate [OF Some, of r] Rate show ?thesis by auto
  qed
next
  case (Upload files)
  then show ?thesis
    by (simp add: stored_log_def handleFileUpload_def processUploadedFiles_def Let_def)
next
  case TimerFires
  then show ?thesis
    by (simp add: stored_log_def after_throttle_def catch_block_def finally_block_def Let_def
        split: Task.splits)
next
  case (Respond parts)
  then show ?thesis
    by (simp add: stored_log_def on_success_def catch_block_def finally_block_def Let_def
        split: Task.splits sum.splits)
next
  case (Reject err)
  then show ?thesis
    by (simp add: stored_log_def catch_block_def finally_block_def Let_def split: Task.splits)
next
  case Effect
  then show ?thesis
    by (simp add: stored_log_def queue_effect_def processQueueItem_def catch_block_def
        finally_block_def Let_def split: option.splits)
qed (simp_all add: stored_log_def handleRegenerate_def handleClearHistory_def)

lemma stored_log_step_distinct:
  "distinct (map id_r (stored_log s)) \<Longrightarrow> distinct (map id_r (stored_log (step s e)))"
  using stored_log_step [of s e] by (auto intro: record_rating_distinct)

lemma stored_log_run_distinct:
  "distinct (map id_r (stored_log s)) \<Longrightarrow> distinct (map id_r (stored_log (run s evs)))"
  unfolding run_def by (induction evs arbitrary: s) (simp_all add: stored_log_step_distinct)

text \<open>
  C7. From a rating log with at most one record per job id (the empty log of a first
  start included), every sequence of events, rate operations among them, leaves a log
  with at most one record per id. Rating a job of the store that has a record keeps the
  length of the log, rating one that has none appends one record; in both cases the
  log then holds exactly one record for that id, the new one with the value just given,
  and the records of the other ids are untouched.
\<close>

theorem rating_log_one_record_per_id:
  assumes "distinct (map id_r (stored_log s))"
  shows "distinct (map id_r (stored_log (run s evs)))
    \<and> (\<forall>k r item. find (\<lambda>i. itemId i = k) (history s) = Some item \<longrightarrow>
          (let log = stored_log s; log' = stored_log (step s (Rate k r));
               rec = ratingRecord item r (now s)
           in (if k \<in> id_r ` set log then length log' = length log else log' = log @ [rec])
              \<and> filter (\<lambda>x. id_r x = k) log' = [rec]
              \<and> filter (\<lambda>x. id_r x \<noteq> k) log' = filter (\<lambda>x. id_r x \<noteq> k) log
              \<and> id_r rec = k \<and> rating_r rec = r))"
proof -
  have "\<And>k r item. find (\<lambda>i. itemId i = k) (history s) = Some item \<Longrightarrow>
          (let log = stored_log s; log' = stored_log (step s (Rate k r));
               rec = ratingRecord item r (now s)
           in (if k \<in> id_r ` set log then length log' = length log else log' = log @ [rec])
              \<and> filter (\<lambda>x. id_r x = k) log' = [rec]
              \<and> filter (\<lambda>x. id_r x \<noteq> k) log' = filter (\<lambda>x. id_r x \<noteq> k) log
              \<and> id_r rec = k \<and> rating_r rec = r)"
  proof -
    fix k r item
    assume f: "find (\<lambda>i. itemId i = k) (history s) = Some item"
    then have "itemId item = k" by (auto simp: find_Some_iff)
    then have idr: "id_r (ratingRecord item r (now s)) = k" by (simp add: ratingRecord_def)
    have rr: "rating_r (ratingRecord item r (now s)) = r" by (simp add: ratingRecord_def)
    show "(let log = stored_log s; log' = stored_log (step s (Rate k r));
               rec = ratingRecord item r (now s)
           in (if k \<in> id_r ` set log then length log' = length log else log' = log @ [rec])
              \<and> filter (\<lambda>x. id_r x = k) log' = [rec]
              \<and> filter (\<lambda>x. id_r x \<noteq> k) log' = filter (\<lambda>x. id_r x \<noteq> k) log
              \<and> id_r rec = k \<and> rating_r rec = r)"
      unfolding Let_def stored_log_Rate [OF f]
      using record_rating_shape [of k "stored_log s" "ratingRecord item r (now s)"]
        record_rating_only [OF assms idr] record_rating_others [OF idr, of "stored_log s"] idr rr
      by simp
  qed
  with stored_log_run_distinct [OF assms, of evs] show ?thesis by blast
qed

lemmas trace_eval = run_def handleFileUpload_def processUploadedFiles_def valid_file_def new_item_def
  List.map_filter_def MAX_QUEUE_SIZE_def activeCount_def initial_def sample_file_def Let_def
  queue_effect_def nextItem_def processQueueItem_def falsy_string_def mark_generating_def
  String_number_def String_nat.simps digit_def at_index_def initial_settings_def
  handleRate_def record_rating_def ratingRecord_def or_default_def sample_item_def stored_log_def

lemma rated_twice_log:
  "stored_log ((initial None None)\<lparr>history := [sample_item ''a'' Completed]\<rparr>) = []
   \<and> map (\<lambda>x. (id_r x, rating_r x)) (stored_log rated_twice) = [(''a'', 5)]"
  by (simp add: rated_twice_def trace_eval)

theorem rating_log_one_record_per_id_witness:
  "distinct (map id_r (stored_log ((initial None None)\<lparr>history := [sample_item ''a'' Completed]\<rparr>)))
   \<and> distinct (map id_r (stored_log rated_twice))
   \<and> map (\<lambda>x. (id_r x, rating_r x)) (stored_log rated_twice) = [(''a'', 5)]"
  using rating_log_one_record_per_id
    [of "(initial None None)\<lparr>history := [sample_item ''a'' Completed]\<rparr>" "[Rate ''a'' 3, Rate ''a'' 5]"]
    rated_twice_log
  by (simp add: rated_twice_def [symmetric])

section \<open>The scan order of the queue controller\<close>






lemma two_batches_history:
  "map (\<lambda>i. (itemId i, timestamp i, status i)) (history two_batches) = [(''5b'', 5, Queued), (''0a'', 0, Queued)]
   \<and> isQueueRunning two_batches \<and> processingId two_batches = None"
  by (simp add: two_batches_def trace_eval)




section \<open>The preference profile\<close>

lemma running_count_snoc_old:
  "k < length pre \<Longrightarrow> running_count str (pre @ ys) k = running_count str pre k"
  by (simp add: running_count_def nth_append)

lemma running_count_snoc_new:
  "running_count str (pre @ item # ys) (length pre) = count_list (map str pre) (str item) + 1"
  by (simp add: running_count_def)

lemma getMode_loop_invariant:
  assumes "\<forall>v. or_default (counts v) 0 = count_list (map str pre) v"
    and "\<forall>k < length pre. running_count str pre k \<le> maxCount"
    and "pre = [] \<longrightarrow> maxCount = 0"
    and "pre \<noteq> [] \<longrightarrow> (\<exists>n < length pre. mode = pre ! n \<and> running_count str pre n = maxCount
            \<and> (\<forall>k < n. running_count str pre k < maxCount))"
    and "pre @ rest \<noteq> []"
  shows "\<exists>n < length (pre @ rest).
            getMode_loop str rest counts maxCount mode = (pre @ rest) ! n
          \<and> (\<forall>k < length (pre @ rest). running_count str (pre @ rest) k \<le> running_count str (pre @ rest) n)
          \<and> (\<forall>k < n. running_count str (pre @ rest) k < running_count str (pre @ rest) n)"
  using assms
proof (induction rest arbitrary: pre counts maxCount mode)
  case Nil
  then have "pre \<noteq> []" by simp
  with Nil.prems(4) obtain n where n: "n < length pre" "mode = pre ! n"
      "running_count str pre n = maxCount" "\<forall>k < n. running_count str pre k < maxCount"
    by blast
  with Nil.prems(2) show ?case by auto
next
  case (Cons item rest)
  define c where "c = count_list (map str pre) (str item) + 1"
  define counts' where "counts' = counts(str item \<mapsto> c)"
  define pre' where "pre' = pre @ [item]"
  have old: "\<And>k. k < length pre \<Longrightarrow> running_count str pre' k = running_count str pre k"
    unfolding pre'_def by (rule running_count_snoc_old)
  have new: "running_count str pre' (length pre) = c"
    unfolding pre'_def c_def by (rule running_count_snoc_new)
  have cval: "or_default (counts (str item)) 0 + 1 = c"
    using Cons.prems(1) by (simp add: c_def)
  have counts': "\<forall>v. or_default (counts' v) 0 = count_list (map str pre') v"
    using Cons.prems(1) by (simp add: counts'_def pre'_def c_def or_default_def)
  have ne: "pre' @ rest \<noteq> []" by (simp add: pre'_def)
  have app: "pre' @ rest = pre @ item # rest" by (simp add: pre'_def)
  have len: "length pre' = Suc (length pre)" by (simp add: pre'_def)
  show ?case
  proof (cases "c > maxCount")
    case True
    have unfold: "getMode_loop str (item # rest) counts maxCount mode
                    = getMode_loop str rest counts' c item"
      using True cval by (simp add: Let_def counts'_def)
    have b2: "\<forall>k < length pre'. running_count str pre' k \<le> c"
    proof (intro allI impI)
      fix k assume "k < length pre'"
      then consider "k < length pre" | "k = length pre" using len by linarith
      then show "running_count str pre' k \<le> c"
      proof cases
        case 1
        with Cons.prems(2) old True show ?thesis by fastforce
      next
        case 2
        with new show ?thesis by simp
      qed
    qed
    have b4: "pre' \<noteq> [] \<longrightarrow> (\<exists>n < length pre'. item = pre' ! n \<and> running_count str pre' n = c
            \<and> (\<forall>k < n. running_count str pre' k < c))"
    proof -
      have lt: "\<forall>k < length pre. running_count str pre' k < c"
        using Cons.prems(2) old True by fastforce
      have it: "item = pre' ! length pre" by (simp add: pre'_def)
      have "length pre < length pre' \<and> item = pre' ! length pre
              \<and> running_count str pre' (length pre) = c
              \<and> (\<forall>k < length pre. running_count str pre' k < c)"
        using lt it new len by simp
      then show ?thesis by (intro impI exI [where x = "length pre"])
    qed
    have b3: "pre' = [] \<longrightarrow> c = 0" by (simp add: pre'_def)
    from Cons.IH [OF counts' b2 b3 b4 ne] show ?thesis
      unfolding unfold app .
  next
    case False
    have unfold: "getMode_loop str (item # rest) counts maxCount mode
                    = getMode_loop str rest counts' maxCount mode"
      using False cval by (simp add: Let_def counts'_def)
    from False have "maxCount \<noteq> 0" by (simp add: c_def)
    with Cons.prems(3) have pne: "pre \<noteq> []" by blast
    with Cons.prems(4) obtain n where n: "n < length pre" "mode = pre ! n"
      "running_count str pre n = maxCount" "\<forall>k < n. running_count str pre k < maxCount"
      by blast
    have b2: "\<forall>k < length pre'. running_count str pre' k \<le> maxCount"
    proof (intro allI impI)
      fix k assume "k < length pre'"
      then consider "k < length pre" | "k = length pre" using len by linarith
      then show "running_count str pre' k \<le> maxCount"
      proof cases
        case 1
        with Cons.prems(2) old show ?thesis by simp
      next
        case 2
        with new False show ?thesis by simp
      qed
    qed
    have b3: "pre' = [] \<longrightarrow> maxCount = 0" by (simp add: pre'_def)
    have b4: "pre' \<noteq> [] \<longrightarrow> (\<exists>n < length pre'. mode = pre' ! n \<and> running_count str pre' n = maxCount
            \<and> (\<forall>k < n. running_count str pre' k < maxCount))"
    proof -
      have "n < length pre'" using n(1) len by simp
      moreover have "mode = pre' ! n" using n(1,2) by (simp add: pre'_def nth_append)
      moreover have "running_count str pre' n = maxCount" using n(1,3) old by simp
      moreover have "\<forall>k < n. running_count str pre' k < maxCount"
        using n(1,4) old by simp
      ultimately have "n < length pre' \<and> mode = pre' ! n \<and> running_count str pre' n = maxCount
            \<and> (\<forall>k < n. running_count str pre' k < maxCount)" by simp
      then show ?thesis by (intro impI exI [where x = n])
    qed
    from Cons.IH [OF counts' b2 b3 b4 ne] show ?thesis
      unfolding unfold app .
  qed
qed

lemma running_le_total:
  assumes "k < length arr"
  shows "running_count str arr k \<le> key_count str arr (arr ! k)"
proof -
  have "map str arr = map str (take (Suc k) arr) @ map str (drop (Suc k) arr)"
    by (metis append_take_drop_id map_append)
  then have "count_list (map str arr) (str (arr ! k))
       = count_list (map str (take (Suc k) arr)) (str (arr ! k))
         + count_list (map str (drop (Suc k) arr)) (str (arr ! k))"
    by (metis count_list_append)
  then show ?thesis by (simp add: running_count_def key_count_def)
qed

lemma last_occurrence:
  "x \<in> set arr \<Longrightarrow> \<exists>k < length arr. running_count str arr k = key_count str arr x"
proof (induction arr rule: rev_induct)
  case Nil
  then show ?case by simp
next
  case (snoc a arr)
  show ?case
  proof (cases "str a = str x")
    case True
    have "running_count str (arr @ [a]) (length arr) = key_count str (arr @ [a]) x"
      using True by (simp add: running_count_def key_count_def)
    then show ?thesis by auto
  next
    case False
    with snoc.prems have "x \<in> set arr" by auto
    from snoc.IH [OF this] obtain k where k: "k < length arr"
        "running_count str arr k = key_count str arr x" by blast
    have "running_count str (arr @ [a]) k = running_count str arr k"
      using k(1) by (rule running_count_snoc_old)
    moreover have "key_count str (arr @ [a]) x = key_count str arr x"
      using False by (simp add: key_count_def)
    ultimately show ?thesis using k by (metis length_append_singleton less_Suc_eq)
  qed
qed

lemma getMode_first_to_reach_maximum:
  assumes "arr \<noteq> []"
  shows "\<exists>n < length arr. getMode str arr = Some (arr ! n)
          \<and> (\<forall>x \<in> set arr. key_count str arr x \<le> key_count str arr (arr ! n))
          \<and> running_count str arr n = key_count str arr (arr ! n)
          \<and> (\<forall>k < n. running_count str arr k < key_count str arr (arr ! n))"
proof -
  have "\<exists>n < length ([] @ arr).
            getMode_loop str arr Map.empty 0 (hd arr) = ([] @ arr) ! n
          \<and> (\<forall>k < length ([] @ arr). running_count str ([] @ arr) k \<le> running_count str ([] @ arr) n)
          \<and> (\<forall>k < n. running_count str ([] @ arr) k < running_count str ([] @ arr) n)"
    by (rule getMode_loop_invariant) (simp_all add: or_default_def assms)
  then obtain n where n: "n < length arr" "getMode_loop str arr Map.empty 0 (hd arr) = arr ! n"
      "\<forall>k < length arr. running_count str arr k \<le> running_count str arr n"
      "\<forall>k < n. running_count str arr k < running_count str arr n"
    by auto
  have top: "\<forall>x \<in> set arr. key_count str arr x \<le> running_count str arr n"
  proof
    fix x assume "x \<in> set arr"
    from last_occurrence [OF this, of str] n(3) show "key_count str arr x \<le> running_count str arr n"
      by auto
  qed
  have "arr ! n \<in> set arr" using n(1) by simp
  with top running_le_total [OF n(1), of str]
  have eq: "running_count str arr n = key_count str arr (arr ! n)" by fastforce
  from n top eq assms show ?thesis by (auto simp: getMode_def)
qed

lemmas profile_eval = preferredShadow_def positiveExamples_def getMode_def Let_def or_default_def
  String_undefined_def sample_rating_def spec_example_log_def tie_log_def
  mode_by_first_occurrence_def key_count_def

lemma spec_example_shadow: "preferredShadow spec_example_log = Some (Some Soft)"
  by (simp add: profile_eval)

lemma tie_log_shadow:
  "positiveExamples tie_log = tie_log
   \<and> map shadowIntensity_r (positiveExamples tie_log) = [Some Soft, Some Hard, Some Hard, Some Soft]
   \<and> preferredShadow tie_log = Some (Some Hard)
   \<and> mode_by_first_occurrence (String_undefined String_ShadowIntensity)
        (map shadowIntensity_r (positiveExamples tie_log)) = Some (Some Soft)"
  by (simp add: profile_eval)

lemma memory_nonempty: "positiveExamples ratings \<noteq> [] \<Longrightarrow> getAiMemoryContext (Some ratings) \<noteq> []"
  by (simp add: getAiMemoryContext_def)

lemma memory_empty:
  "positiveExamples ratings = [] \<Longrightarrow>
     getAiMemoryContext (Some ratings) = [] \<and> preferredShadow ratings = None
     \<and> preferredMaterial ratings = None \<and> preferredAngle ratings = None"
  by (simp add: getAiMemoryContext_def preferredShadow_def preferredMaterial_def
      preferredAngle_def getMode_def)

lemma strict_majority:
  "(2 * length (filter P xs) > length xs) = (length (filter P xs) > length (filter (\<lambda>x. \<not> P x) xs))"
  using sum_length_filter_compl [of P xs] by linarith

lemma count_list_map: "count_list (map g xs) y = length (filter (\<lambda>x. g x = y) xs)"
  by (induction xs) simp_all

lemma key_count_field:
  assumes "inj str"
  shows "key_count str (map f rs) (f r) = field_count f rs (f r)"
proof -
  have "(\<lambda>x. str (f x) = str (f r)) = (\<lambda>x. f x = f r)"
    using assms by (auto simp: inj_def)
  then show ?thesis
    by (simp add: key_count_def field_count_def count_list_map comp_def)
qed

lemma running_count_field:
  assumes "inj str" and "k < length rs"
  shows "running_count str (map f rs) k = field_count f (take (Suc k) rs) (f (rs ! k))"
proof -
  have eq: "(\<lambda>x. str (f x) = str (f (rs ! k))) = (\<lambda>x. f x = f (rs ! k))"
    using assms(1) by (auto simp: inj_def)
  have "running_count str (map f rs) k
          = count_list (map str (take (Suc k) (map f rs))) (str (f (rs ! k)))"
    using assms(2) by (simp only: running_count_def nth_map)
  also have "take (Suc k) (map f rs) = map f (take (Suc k) rs)"
    by (rule take_map)
  also have "count_list (map str (map f (take (Suc k) rs))) (str (f (rs ! k)))
          = length (filter (\<lambda>x. str (f x) = str (f (rs ! k))) (take (Suc k) rs))"
    by (simp only: map_map count_list_map comp_def)
  finally show ?thesis by (simp only: eq field_count_def)
qed

lemma field_mode:
  assumes "inj str" and "rs \<noteq> []"
  shows "\<exists>n < length rs. getMode str (map f rs) = Some (f (rs ! n))
          \<and> (\<forall>r \<in> set rs. field_count f rs (f r) \<le> field_count f rs (f (rs ! n)))
          \<and> field_count f (take (Suc n) rs) (f (rs ! n)) = field_count f rs (f (rs ! n))
          \<and> (\<forall>k < n. field_count f (take (Suc k) rs) (f (rs ! k)) < field_count f rs (f (rs ! n)))"
proof -
  from assms(2) have "map f rs \<noteq> []" by simp
  from getMode_first_to_reach_maximum [OF this, of str]
  obtain n where n: "n < length rs" "getMode str (map f rs) = Some (map f rs ! n)"
      "\<forall>x \<in> set (map f rs). key_count str (map f rs) x \<le> key_count str (map f rs) (map f rs ! n)"
      "running_count str (map f rs) n = key_count str (map f rs) (map f rs ! n)"
      "\<forall>k < n. running_count str (map f rs) k < key_count str (map f rs) (map f rs ! n)"
    by auto
  have at: "map f rs ! n = f (rs ! n)" using n(1) by simp
  have a: "\<forall>r \<in> set rs. field_count f rs (f r) \<le> field_count f rs (f (rs ! n))"
  proof
    fix r assume "r \<in> set rs"
    then have "f r \<in> set (map f rs)" by simp
    with n(3) have "key_count str (map f rs) (f r) \<le> key_count str (map f rs) (f (rs ! n))"
      unfolding at by blast
    then show "field_count f rs (f r) \<le> field_count f rs (f (rs ! n))"
      by (simp add: key_count_field [OF assms(1)])
  qed
  have b: "field_count f (take (Suc n) rs) (f (rs ! n)) = field_count f rs (f (rs ! n))"
    using n(4) unfolding at
    by (simp add: key_count_field [OF assms(1)] running_count_field [OF assms(1) n(1)])
  have c: "\<forall>k < n. field_count f (take (Suc k) rs) (f (rs ! k)) < field_count f rs (f (rs ! n))"
  proof (intro allI impI)
    fix k assume k: "k < n"
    then have kl: "k < length rs" using n(1) by simp
    from n(5) k have "running_count str (map f rs) k < key_count str (map f rs) (f (rs ! n))"
      unfolding at by blast
    then show "field_count f (take (Suc k) rs) (f (rs ! k)) < field_count f rs (f (rs ! n))"
      by (simp add: key_count_field [OF assms(1)] running_count_field [OF assms(1) kl])
  qed
  from n(1) n(2) a b c show ?thesis unfolding at by blast
qed

lemma String_ShadowIntensity_eq: "String_ShadowIntensity a = String_ShadowIntensity b \<Longrightarrow> a = b"
  by (cases a; cases b) simp_all

lemma String_ShadowIntensity_defined: "String_ShadowIntensity a \<noteq> ''undefined''"
  by (cases a) simp_all

lemma inj_String_ShadowIntensity: "inj (String_undefined String_ShadowIntensity)"
proof (rule injI)
  fix x y :: "ShadowIntensity option"
  assume e: "String_undefined String_ShadowIntensity x = String_undefined String_ShadowIntensity y"
  show "x = y"
  proof (cases x)
    case None
    with e String_ShadowIntensity_defined show ?thesis
      by (cases y) (auto simp: String_undefined_def)
  next
    case (Some a)
    with e String_ShadowIntensity_defined String_ShadowIntensity_eq show ?thesis
      by (cases y) (auto simp: String_undefined_def)
  qed
qed

lemma String_MaterialType_eq: "String_MaterialType a = String_MaterialType b \<Longrightarrow> a = b"
  by (cases a; cases b) simp_all

lemma String_MaterialType_defined: "String_MaterialType a \<noteq> ''undefined''"
  by (cases a) simp_all

lemma inj_String_MaterialType: "inj (String_undefined String_MaterialType)"
proof (rule injI)
  fix x y :: "MaterialType option"
  assume e: "String_undefined String_MaterialType x = String_undefined String_MaterialType y"
  show "x = y"
  proof (cases x)
    case None
    with e String_MaterialType_defined show ?thesis
      by (cases y) (auto simp: String_undefined_def)
  next
    case (Some a)
    with e String_MaterialType_defined String_MaterialType_eq show ?thesis
      by (cases y) (auto simp: String_undefined_def)
  qed
qed

lemma of_char_digit: "n < 10 \<Longrightarrow> (of_char (digit n) :: nat) = 48 + n"
  unfolding digit_def by (simp add: nth_Cons')

lemma digit_inj:
  assumes "n < 10" and "m < 10" and "digit n = digit m"
  shows "n = m"
proof -
  have "(of_char (digit n) :: nat) = of_char (digit m)" by (simp only: assms(3))
  then have "48 + n = 48 + m"
    by (simp only: of_char_digit [OF assms(1)] of_char_digit [OF assms(2)])
  then show ?thesis by simp
qed

lemma digit_not_minus:
  assumes "n < 10"
  shows "digit n \<noteq> CHR ''-''"
proof
  assume "digit n = CHR ''-''"
  then have "(of_char (digit n) :: nat) = of_char (CHR ''-'')" by (simp only:)
  then have "48 + n = (of_char (CHR ''-'') :: nat)" by (simp only: of_char_digit [OF assms])
  then show False by simp
qed

lemma String_nat_not_empty: "String_nat n \<noteq> []"
  by (subst String_nat.simps) simp

lemma String_nat_no_minus: "CHR ''-'' \<notin> set (String_nat n)"
proof (induction n rule: String_nat.induct)
  case (1 n)
  show ?case
  proof (cases "n < 10")
    case True
    then show ?thesis using digit_not_minus [of n] by (subst String_nat.simps) auto
  next
    case False
    have "n mod 10 < 10" by simp
    with "1" [OF False] False digit_not_minus [of "n mod 10"] show ?thesis
      by (subst String_nat.simps) auto
  qed
qed

lemma String_nat_inj: "String_nat n = String_nat m \<Longrightarrow> n = m"
proof (induction n arbitrary: m rule: String_nat.induct)
  case (1 n)
  show ?case
  proof (cases "n < 10")
    case n10: True
    show ?thesis
    proof (cases "m < 10")
      case True
      with n10 "1.prems" have "digit n = digit m"
        by (simp add: String_nat.simps [of n] String_nat.simps [of m])
      with n10 True show ?thesis by (rule digit_inj)
    next
      case False
      with n10 "1.prems" have "String_nat (m div 10) = []"
        by (simp add: String_nat.simps [of n] String_nat.simps [of m])
      with String_nat_not_empty show ?thesis by blast
    qed
  next
    case n10: False
    show ?thesis
    proof (cases "m < 10")
      case True
      with n10 "1.prems" have "String_nat (n div 10) = []"
        by (simp add: String_nat.simps [of n] String_nat.simps [of m])
      with String_nat_not_empty show ?thesis by blast
    next
      case False
      with n10 "1.prems" have e: "String_nat (n div 10) = String_nat (m div 10)"
          "digit (n mod 10) = digit (m mod 10)"
        by (simp_all add: String_nat.simps [of n] String_nat.simps [of m])
      from "1.IH" [OF n10 e(1)] have d: "n div 10 = m div 10" .
      have "n mod 10 = m mod 10" using e(2) by (intro digit_inj) simp_all
      with d show ?thesis by (metis div_mult_mod_eq)
    qed
  qed
qed

lemma inj_String_number: "inj String_number"
proof (rule injI)
  fix x y :: int
  assume e: "String_number x = String_number y"
  show "x = y"
  proof (cases "x < 0")
    case xn: True
    show ?thesis
    proof (cases "y < 0")
      case True
      with xn e have "nat (- x) = nat (- y)" by (simp add: String_number_def String_nat_inj)
      with xn True show ?thesis by simp
    next
      case False
      with xn e have "CHR ''-'' # String_nat (nat (- x)) = String_nat (nat y)"
        by (simp add: String_number_def)
      then have "CHR ''-'' \<in> set (String_nat (nat y))"
        by (metis list.set_intros(1))
      with String_nat_no_minus show ?thesis by blast
    qed
  next
    case xp: False
    show ?thesis
    proof (cases "y < 0")
      case True
      with xp e have "String_nat (nat x) = CHR ''-'' # String_nat (nat (- y))"
        by (simp add: String_number_def)
      then have "CHR ''-'' \<in> set (String_nat (nat x))"
        by (metis list.set_intros(1))
      with String_nat_no_minus show ?thesis by blast
    next
      case False
      with xp e have "nat x = nat y" by (simp add: String_number_def String_nat_inj)
      with xp False show ?thesis by simp
    qed
  qed
qed

lemma context_of_fields:
  assumes "positiveExamples ratings \<noteq> []" and "positiveExamples ratings' \<noteq> []"
    and "length (positiveExamples ratings) = length (positiveExamples ratings')"
    and "preferredShadow ratings = preferredShadow ratings'"
    and "preferredMaterial ratings = preferredMaterial ratings'"
    and "preferredAngle ratings = preferredAngle ratings'"
    and "likesEnhanced ratings = likesEnhanced ratings'"
    and "prefersFloating ratings = prefersFloating ratings'"
  shows "getAiMemoryContext (Some ratings) = getAiMemoryContext (Some ratings')"
  using assms by (simp only: getAiMemoryContext_def option.case if_False)

lemma tie_log_fields:
  "preferredMaterial tie_log = Some (Some Metal) \<and> preferredAngle tie_log = Some 135"
  by (simp add: profile_eval preferredMaterial_def preferredAngle_def angle_bucket_def
      or_default_number_def String_number_def String_nat.simps digit_def)

lemma tie_log_profile:
  "positiveExamples tie_log \<noteq> []
   \<and> getAiMemoryContext (Some tie_log) \<noteq> []
   \<and> preferredShadow tie_log = Some (Some Hard)
   \<and> preferredMaterial tie_log = Some (Some Metal)
   \<and> preferredAngle tie_log = Some 135
   \<and> preferredShadow spec_example_log = Some (Some Soft)"
proof -
  have "positiveExamples tie_log \<noteq> []" by (simp add: positiveExamples_def tie_log_def sample_rating_def)
  with memory_nonempty [of tie_log] tie_log_shadow tie_log_fields spec_example_shadow
  show ?thesis by blast
qed

text \<open>
  C8 (amended). The profile is computed from the records rated 4 or more and is empty
  when there is none (no log, an empty log, a log below the threshold) and non-empty
  otherwise. The preferred shadow intensity, the preferred material and the preferred
  angle are \<open>getMode\<close> of the shadow intensities, the materials and the angle buckets
  of those records, in log order. When there is such a record, each of the three is the
  value of one of them, no value of that field occurs in more of them, and among the
  values that occur as often it is the one whose count is complete first: at every
  earlier position the count so far of the value read there is below the maximum. On any
  non-empty list \<open>getMode\<close> behaves so on the string keys. The two flags are strict
  majorities, and the profile text is determined by the number of records and the five
  fields. For the log of the specification, soft rated 4, soft rated 5 and hard rated 3,
  the preferred shadow intensity is soft.
\<close>

theorem profile_modes_first_to_reach_maximum:
  "getAiMemoryContext None = []
   \<and> positiveExamples ratings = filter (\<lambda>r. rating_r r \<ge> 4) ratings
   \<and> (positiveExamples ratings = [] \<longrightarrow>
         getAiMemoryContext (Some ratings) = [] \<and> preferredShadow ratings = None
         \<and> preferredMaterial ratings = None \<and> preferredAngle ratings = None)
   \<and> (positiveExamples ratings \<noteq> [] \<longrightarrow> getAiMemoryContext (Some ratings) \<noteq> [])
   \<and> (arr \<noteq> [] \<longrightarrow>
         (\<exists>n < length arr. getMode str arr = Some (arr ! n)
            \<and> (\<forall>x \<in> set arr. key_count str arr x \<le> key_count str arr (arr ! n))
            \<and> running_count str arr n = key_count str arr (arr ! n)
            \<and> (\<forall>k < n. running_count str arr k < key_count str arr (arr ! n))))
   \<and> (likesEnhanced ratings \<longleftrightarrow>
         length (filter (\<lambda>r. enhancedLighting_r r = Some True) (positiveExamples ratings))
           > length (filter (\<lambda>r. enhancedLighting_r r \<noteq> Some True) (positiveExamples ratings)))
   \<and> (prefersFloating ratings \<longleftrightarrow>
         length (filter (\<lambda>r. or_default_number (backgroundDistance_r r) 0 > 10) (positiveExamples ratings))
           > length (filter (\<lambda>r. \<not> or_default_number (backgroundDistance_r r) 0 > 10) (positiveExamples ratings)))
   \<and> preferredShadow spec_example_log = Some (Some Soft)
   \<and> preferredShadow ratings
       = getMode (String_undefined String_ShadowIntensity)
           (map shadowIntensity_r (filter (\<lambda>r. rating_r r \<ge> 4) ratings))
   \<and> preferredMaterial ratings
       = getMode (String_undefined String_MaterialType)
           (map materialType_r (filter (\<lambda>r. rating_r r \<ge> 4) ratings))
   \<and> preferredAngle ratings
       = getMode String_number
           (map (\<lambda>r. angle_bucket (shadowAngle_r r)) (filter (\<lambda>r. rating_r r \<ge> 4) ratings))
   \<and> (positiveExamples ratings \<noteq> [] \<longrightarrow>
         (\<exists>n < length (positiveExamples ratings).
            preferredShadow ratings = Some (shadowIntensity_r (positiveExamples ratings ! n))
          \<and> (\<forall>r \<in> set (positiveExamples ratings).
                field_count shadowIntensity_r (positiveExamples ratings) (shadowIntensity_r r)
                  \<le> field_count shadowIntensity_r (positiveExamples ratings)
                       (shadowIntensity_r (positiveExamples ratings ! n)))
          \<and> field_count shadowIntensity_r (take (Suc n) (positiveExamples ratings))
                (shadowIntensity_r (positiveExamples ratings ! n))
              = field_count shadowIntensity_r (positiveExamples ratings)
                  (shadowIntensity_r (positiveExamples ratings ! n))
          \<and> (\<forall>k < n. field_count shadowIntensity_r (take (Suc k) (positiveExamples ratings))
                         (shadowIntensity_r (positiveExamples ratings ! k))
                       < field_count shadowIntensity_r (positiveExamples ratings)
                           (shadowIntensity_r (positiveExamples ratings ! n))))
       \<and> (\<exists>n < length (positiveExamples ratings).
            preferredMaterial ratings = Some (materialType_r (positiveExamples ratings ! n))
          \<and> (\<forall>r \<in> set (positiveExamples ratings).
                field_count materialType_r (positiveExamples ratings) (materialType_r r)
                  \<le> field_count materialType_r (positiveExamples ratings)
                       (materialType_r (positiveExamples ratings ! n)))
          \<and> field_count materialType_r (take (Suc n) (positiveExamples ratings))
                (materialType_r (positiveExamples ratings ! n))
              = field_count materialType_r (positiveExamples ratings)
                  (materialType_r (positiveExamples ratings ! n))
          \<and> (\<forall>k < n. field_count materialType_r (take (Suc k) (positiveExamples ratings))
                         (materialType_r (positiveExamples ratings ! k))
                       < field_count materialType_r (positiveExamples ratings)
                           (materialType_r (positiveExamples ratings ! n))))
       \<and> (\<exists>n < length (positiveExamples ratings).
            preferredAngle ratings = Some (angle_bucket (shadowAngle_r (positiveExamples ratings ! n)))
          \<and> (\<forall>r \<in> set (positiveExamples ratings).
                field_count (\<lambda>r. angle_bucket (shadowAngle_r r)) (positiveExamples ratings)
                    (angle_bucket (shadowAngle_r r))
                  \<le> field_count (\<lambda>r. angle_bucket (shadowAngle_r r)) (positiveExamples ratings)
                       (angle_bucket (shadowAngle_r (positiveExamples ratings ! n))))
          \<and> field_count (\<lambda>r. angle_bucket (shadowAngle_r r)) (take (Suc n) (positiveExamples ratings))
                (angle_bucket (shadowAngle_r (positiveExamples ratings ! n)))
              = field_count (\<lambda>r. angle_bucket (shadowAngle_r r)) (positiveExamples ratings)
                  (angle_bucket (shadowAngle_r (positiveExamples ratings ! n)))
          \<and> (\<forall>k < n. field_count (\<lambda>r. angle_bucket (shadowAngle_r r))
                         (take (Suc k) (positiveExamples ratings))
                         (angle_bucket (shadowAngle_r (positiveExamples ratings ! k)))
                       < field_count (\<lambda>r. angle_bucket (shadowAngle_r r)) (positiveExamples ratings)
                           (angle_bucket (shadowAngle_r (positiveExamples ratings ! n))))))
   \<and> (\<forall>ratings'. positiveExamples ratings \<noteq> [] \<and> positiveExamples ratings' \<noteq> []
          \<and> length (positiveExamples ratings) = length (positiveExamples ratings')
          \<and> preferredShadow ratings = preferredShadow ratings'
          \<and> preferredMaterial ratings = preferredMaterial ratings'
          \<and> preferredAngle ratings = preferredAngle ratings'
          \<and> likesEnhanced ratings = likesEnhanced ratings'
          \<and> prefersFloating ratings = prefersFloating ratings'
          \<longrightarrow> getAiMemoryContext (Some ratings) = getAiMemoryContext (Some ratings'))"
proof -
  have a: "getAiMemoryContext None = []" by (simp add: getAiMemoryContext_def)
  have b: "positiveExamples ratings = filter (\<lambda>r. rating_r r \<ge> 4) ratings"
    by (simp add: positiveExamples_def)
  have e: "likesEnhanced ratings \<longleftrightarrow>
         length (filter (\<lambda>r. enhancedLighting_r r = Some True) (positiveExamples ratings))
           > length (filter (\<lambda>r. enhancedLighting_r r \<noteq> Some True) (positiveExamples ratings))"
    unfolding likesEnhanced_def by (rule strict_majority)
  have f: "prefersFloating ratings \<longleftrightarrow>
         length (filter (\<lambda>r. or_default_number (backgroundDistance_r r) 0 > 10) (positiveExamples ratings))
           > length (filter (\<lambda>r. \<not> or_default_number (backgroundDistance_r r) 0 > 10) (positiveExamples ratings))"
    unfolding prefersFloating_def by (rule strict_majority)
  have g1: "preferredShadow ratings
       = getMode (String_undefined String_ShadowIntensity)
           (map shadowIntensity_r (filter (\<lambda>r. rating_r r \<ge> 4) ratings))"
    by (simp add: preferredShadow_def positiveExamples_def)
  have g2: "preferredMaterial ratings
       = getMode (String_undefined String_MaterialType)
           (map materialType_r (filter (\<lambda>r. rating_r r \<ge> 4) ratings))"
    by (simp add: preferredMaterial_def positiveExamples_def)
  have g3: "preferredAngle ratings
       = getMode String_number
           (map (\<lambda>r. angle_bucket (shadowAngle_r r)) (filter (\<lambda>r. rating_r r \<ge> 4) ratings))"
    by (simp add: preferredAngle_def positiveExamples_def)
  have h1: "positiveExamples ratings \<noteq> [] \<Longrightarrow>
         (\<exists>n < length (positiveExamples ratings).
            preferredShadow ratings = Some (shadowIntensity_r (positiveExamples ratings ! n))
          \<and> (\<forall>r \<in> set (positiveExamples ratings).
                field_count shadowIntensity_r (positiveExamples ratings) (shadowIntensity_r r)
                  \<le> field_count shadowIntensity_r (positiveExamples ratings)
                       (shadowIntensity_r (positiveExamples ratings ! n)))
          \<and> field_count shadowIntensity_r (take (Suc n) (positiveExamples ratings))
                (shadowIntensity_r (positiveExamples ratings ! n))
              = field_count shadowIntensity_r (positiveExamples ratings)
                  (shadowIntensity_r (positiveExamples ratings ! n))
          \<and> (\<forall>k < n. field_count shadowIntensity_r (take (Suc k) (positiveExamples ratings))
                         (shadowIntensity_r (positiveExamples ratings ! k))
                       < field_count shadowIntensity_r (positiveExamples ratings)
                           (shadowIntensity_r (positiveExamples ratings ! n))))"
    unfolding preferredShadow_def by (rule field_mode [OF inj_String_ShadowIntensity])
  have h2: "positiveExamples ratings \<noteq> [] \<Longrightarrow>
         (\<exists>n < length (positiveExamples ratings).
            preferredMaterial ratings = Some (materialType_r (positiveExamples ratings ! n))
          \<and> (\<forall>r \<in> set (positiveExamples ratings).
                field_count materialType_r (positiveExamples ratings) (materialType_r r)
                  \<le> field_count materialType_r (positiveExamples ratings)
                       (materialType_r (positiveExamples ratings ! n)))
          \<and> field_count materialType_r (take (Suc n) (positiveExamples ratings))
                (materialType_r (positiveExamples ratings ! n))
              = field_count materialType_r (positiveExamples ratings)
                  (materialType_r (positiveExamples ratings ! n))
          \<and> (\<forall>k < n. field_count materialType_r (take (Suc k) (positiveExamples ratings))
                         (materialType_r (positiveExamples ratings ! k))
                       < field_count materialType_r (positiveExamples ratings)
                           (materialType_r (positiveExamples ratings ! n))))"
    unfolding preferredMaterial_def by (rule field_mode [OF inj_String_MaterialType])
  have h3: "positiveExamples ratings \<noteq> [] \<Longrightarrow>
         (\<exists>n < length (positiveExamples ratings).
            preferredAngle ratings = Some (angle_bucket (shadowAngle_r (positiveExamples ratings ! n)))
          \<and> (\<forall>r \<in> set (positiveExamples ratings).
                field_count (\<lambda>r. angle_bucket (shadowAngle_r r)) (positiveExamples ratings)
                    (angle_bucket (shadowAngle_r r))
                  \<le> field_count (\<lambda>r. angle_bucket (shadowAngle_r r)) (positiveExamples ratings)
                       (angle_bucket (shadowAngle_r (positiveExamples ratings ! n))))
          \<and> field_count (\<lambda>r. angle_bucket (shadowAngle_r r)) (take (Suc n) (positiveExamples ratings))
                (angle_bucket (shadowAngle_r (positiveExamples ratings ! n)))
              = field_count (\<lambda>r. angle_bucket (shadowAngle_r r)) (positiveExamples ratings)
                  (angle_bucket (shadowAngle_r (positiveExamples ratings ! n)))
          \<and> (\<forall>k < n. field_count (\<lambda>r. angle_bucket (shadowAngle_r r))
                         (take (Suc k) (positiveExamples ratings))
                         (angle_bucket (shadowAngle_r (positiveExamples ratings ! k)))
                       < field_count (\<lambda>r. angle_bucket (shadowAngle_r r)) (positiveExamples ratings)
                           (angle_bucket (shadowAngle_r (positiveExamples ratings ! n)))))"
    unfolding preferredAngle_def
    by (rule field_mode [OF inj_String_number, where f = "\<lambda>r. angle_bucket (shadowAngle_r r)"])
  have c: "arr \<noteq> [] \<longrightarrow>
         (\<exists>n < length arr. getMode str arr = Some (arr ! n)
            \<and> (\<forall>x \<in> set arr. key_count str arr x \<le> key_count str arr (arr ! n))
            \<and> running_count str arr n = key_count str arr (arr ! n)
            \<and> (\<forall>k < n. running_count str arr k < key_count str arr (arr ! n)))"
    using getMode_first_to_reach_maximum [of arr str] by blast
  have d: "\<forall>ratings'. positiveExamples ratings \<noteq> [] \<and> positiveExamples ratings' \<noteq> []
          \<and> length (positiveExamples ratings) = length (positiveExamples ratings')
          \<and> preferredShadow ratings = preferredShadow ratings'
          \<and> preferredMaterial ratings = preferredMaterial ratings'
          \<and> preferredAngle ratings = preferredAngle ratings'
          \<and> likesEnhanced ratings = likesEnhanced ratings'
          \<and> prefersFloating ratings = prefersFloating ratings'
          \<longrightarrow> getAiMemoryContext (Some ratings) = getAiMemoryContext (Some ratings')"
    using context_of_fields [of ratings] by blast
  have m0: "positiveExamples ratings = [] \<longrightarrow>
         getAiMemoryContext (Some ratings) = [] \<and> preferredShadow ratings = None
         \<and> preferredMaterial ratings = None \<and> preferredAngle ratings = None"
    using memory_empty [of ratings] by blast
  have m1: "positiveExamples ratings \<noteq> [] \<longrightarrow> getAiMemoryContext (Some ratings) \<noteq> []"
    using memory_nonempty [of ratings] by blast
  show ?thesis
    apply (intro conjI)
                apply (rule a)
               apply (rule b)
              apply (rule m0)
             apply (rule m1)
            apply (rule c)
           apply (rule e)
          apply (rule f)
         apply (rule spec_example_shadow)
        apply (rule g1)
       apply (rule g2)
      apply (rule g3)
     apply (intro impI conjI)
       apply (erule h1)
      apply (erule h2)
     apply (erule h3)
    apply (rule d)
    done
qed

theorem profile_modes_first_to_reach_maximum_witness:
  "positiveExamples tie_log \<noteq> []
   \<and> getAiMemoryContext (Some tie_log) \<noteq> []
   \<and> preferredShadow tie_log = Some (Some Hard)
   \<and> preferredMaterial tie_log = Some (Some Metal)
   \<and> preferredAngle tie_log = Some 135
   \<and> preferredShadow spec_example_log = Some (Some Soft)"
  using profile_modes_first_to_reach_maximum
      [where ratings = tie_log and arr = "map shadowIntensity_r (positiveExamples tie_log)"
         and str = "String_undefined String_ShadowIntensity"]
    tie_log_profile
  by blast

text \<open>
  Ties are not broken by first occurrence: for soft, hard, hard, soft, all rated 4 or
  more, both values occur twice, soft occurs first, and the profile prefers hard.
\<close>

theorem first_occurrence_tie_break_counterexample:
  "map shadowIntensity_r (positiveExamples tie_log) = [Some Soft, Some Hard, Some Hard, Some Soft]
   \<and> mode_by_first_occurrence (String_undefined String_ShadowIntensity)
        (map shadowIntensity_r (positiveExamples tie_log)) = Some (Some Soft)
   \<and> preferredShadow tie_log = Some (Some Hard)"
  by (simp add: profile_eval)

section \<open>The compiler at the dispatch boundary\<close>

text \<open>
  C9. The compiled payload is a function of the configuration snapshot and the profile
  text alone: two jobs that agree on the configuration fields, whatever their ids,
  statuses, images and ratings, give with equal profile texts the same prompt (the one
  \<open>getSystemPrompt\<close> computes from those fields) and the same image configuration. The
  step of the controller that compiles and sends the request leaves the store, the
  settings and the rating log as they were: it only records the request and moves on
  to the call.
\<close>

theorem compile_depends_only_on_snapshot_and_profile:
  assumes "materialType i = materialType j" and "shadowAngle i = shadowAngle j"
    and "shadowIntensity i = shadowIntensity j" and "backgroundDistance i = backgroundDistance j"
    and "enhancedLighting i = enhancedLighting j" and "textureIntensity i = textureIntensity j"
    and "patinaIntensity i = patinaIntensity j" and "patinaVariation i = patinaVariation j"
    and "aspectRatio i = aspectRatio j" and "m = m'"
  shows "text_part (item_request i m) = text_part (item_request j m')
     \<and> config_aspectRatio (item_request i m) = config_aspectRatio (item_request j m')
     \<and> imageSize (item_request i m) = imageSize (item_request j m')
     \<and> model (item_request i m) = model (item_request j m')
     \<and> text_part (item_request i m) =
         getSystemPrompt (or_default (materialType i) Standard)
           (Some (or_default (shadowAngle i) 135)) (Some (or_default (shadowIntensity i) Soft))
           (Some (or_default (backgroundDistance i) 0)) (Some (or_default (enhancedLighting i) False))
           (Some (or_default_number (textureIntensity i) 50))
           (Some (or_default_number (patinaIntensity i) 0))
           (Some (or_default (patinaVariation i) StandardVariation)) (Some m)
     \<and> (\<forall>s due. task s = Throttle i due \<and> due \<le> now s \<and> \<not> falsy_string (API_KEY s) \<longrightarrow>
           history (step s TimerFires) = history s
           \<and> settings (step s TimerFires) = settings s
           \<and> ratings_storage (step s TimerFires) = ratings_storage s
           \<and> task (step s TimerFires) = Calling i
           \<and> sent (step s TimerFires) = sent s @ [item_request i (getAiMemoryContext (ratings_storage s))])"
  using assms
  by (simp add: item_request_def generateProPhoto_request_def after_throttle_def or_default_def Let_def)

lemma throttled_state_eval:
  "task throttled_state = Throttle (sample_item ''a'' Queued) 1000 \<and> 1000 \<le> now throttled_state
   \<and> \<not> falsy_string (API_KEY throttled_state)
   \<and> history throttled_state = [sample_item ''a'' Generating]"
  by (simp add: throttled_state_def initial_def falsy_string_def)

lemma sample_items_agree:
  "materialType (sample_item ''a'' Queued) = materialType ((sample_item ''b'' Failed)\<lparr>rating := Some 5\<rparr>)
   \<and> textureIntensity (sample_item ''a'' Queued) = textureIntensity ((sample_item ''b'' Failed)\<lparr>rating := Some 5\<rparr>)"
  by (simp add: sample_item_def)

theorem compile_depends_only_on_snapshot_and_profile_witness:
  "text_part (item_request (sample_item ''a'' Queued) [])
     = text_part (item_request ((sample_item ''b'' Failed)\<lparr>rating := Some 5\<rparr>) [])
   \<and> history (step throttled_state TimerFires) = [sample_item ''a'' Generating]
   \<and> sent (step throttled_state TimerFires)
       = sent throttled_state @ [item_request (sample_item ''a'' Queued) (getAiMemoryContext (ratings_storage throttled_state))]"
  using compile_depends_only_on_snapshot_and_profile
      [of "sample_item ''a'' Queued" "(sample_item ''b'' Failed)\<lparr>rating := Some 5\<rparr>" "[]" "[]"]
    throttled_state_eval
  by (simp add: sample_item_def)

section \<open>The single-flight invariant\<close>

lemma ids_mark_generating [simp]: "map itemId (mark_generating k h) = map itemId h"
  by (induction h) (simp_all add: mark_generating_def)

lemma ids_mark_failed [simp]: "map itemId (mark_failed k h) = map itemId h"
  by (induction h) (simp_all add: mark_failed_def)

lemma ids_mark_completed [simp]: "map itemId (mark_completed k u h) = map itemId h"
  by (induction h) (simp_all add: mark_completed_def)

lemma ids_regenerate [simp]: "map itemId (history (handleRegenerate s k)) = map itemId (history s)"
  by (simp add: handleRegenerate_def regenerated_def Let_def)

lemma set_ids: "itemId ` set h = set (map itemId h)"
  by simp

lemma gen_mark_failed [simp]: "generating_ids (mark_failed k h) = generating_ids h - {k}"
  by (induction h) (auto simp: generating_ids_def mark_failed_def)

lemma gen_mark_completed [simp]: "generating_ids (mark_completed k u h) = generating_ids h - {k}"
  by (induction h) (auto simp: generating_ids_def mark_completed_def)

lemma gen_mark_generating: "generating_ids (mark_generating k h) \<subseteq> generating_ids h \<union> {k}"
  by (induction h) (auto simp: generating_ids_def mark_generating_def)

lemma gen_regenerate:
  "generating_ids (history (handleRegenerate s k)) \<subseteq> generating_ids (history s)"
  by (auto simp: generating_ids_def handleRegenerate_def regenerated_def Let_def)

lemma history_rate:
  "history (handleRate s k r)
     = map (\<lambda>item. if itemId item = k then item\<lparr>rating := Some r\<rparr> else item) (history s)"
proof (cases "find (\<lambda>i. itemId i = k) (history s)")
  case None
  then show ?thesis by (simp add: handleRate_def)
next
  case (Some item)
  then show ?thesis by (simp add: handleRate_def Let_def)
qed

lemma gen_map_same:
  assumes "\<And>i. itemId (f i) = itemId i \<and> status (f i) = status i"
  shows "generating_ids (map f h) = generating_ids h"
proof -
  have "itemId ` {i \<in> f ` set h. status i = Generating} = itemId ` {i \<in> set h. status i = Generating}"
    using assms by (force simp: image_iff)
  then show ?thesis by (simp add: generating_ids_def)
qed

lemma ids_rate [simp]: "map itemId (history (handleRate s k r)) = map itemId (history s)"
  unfolding history_rate by simp

lemma gen_rate [simp]: "generating_ids (history (handleRate s k r)) = generating_ids (history s)"
  unfolding history_rate by (rule gen_map_same) simp

lemma gen_append: "generating_ids (xs @ ys) = generating_ids xs \<union> generating_ids ys"
  by (auto simp: generating_ids_def)

lemma gen_new_items: "generating_ids (List.map_filter (new_item s) fs) = {}"
  by (auto simp: generating_ids_def List.map_filter_def new_item_def split: option.splits)

lemma String_nat_nonempty: "String_nat n \<noteq> []"
  by (subst String_nat.simps) simp

lemma new_item_id_nonempty: "new_item s f = Some i \<Longrightarrow> itemId i \<noteq> []"
  by (auto simp: new_item_def String_number_def String_nat_nonempty split: option.splits)

lemma new_items_ids_nonempty: "[] \<notin> itemId ` set (List.map_filter (new_item s) fs)"
proof
  assume "[] \<in> itemId ` set (List.map_filter (new_item s) fs)"
  then obtain i f where "new_item s f = Some i" "itemId i = []"
    by (auto simp: List.map_filter_def)
  then show False using new_item_id_nonempty by blast
qed

lemma upload_shape:
  "handleFileUpload s files = s
   \<or> (\<exists>msg. handleFileUpload s files = s\<lparr>error := Some msg\<rparr>)
   \<or> handleFileUpload s files =
        s\<lparr>error := None,
          history := List.map_filter (new_item s) (filter valid_file files) @ history s\<rparr>"
proof (cases "files = []")
  case True
  then show ?thesis by (simp add: handleFileUpload_def)
next
  case ne: False
  show ?thesis
  proof (cases "filter valid_file files = []")
    case True
    with ne have "handleFileUpload s files
        = s\<lparr>error := Some ''No valid images selected (Max 10MB, JPG/PNG/WEBP).''\<rparr>"
      by (simp add: handleFileUpload_def processUploadedFiles_def)
    then show ?thesis by blast
  next
    case v: False
    show ?thesis
    proof (cases "activeCount (history s) + length (filter valid_file files) > MAX_QUEUE_SIZE")
      case True
      with ne v have "handleFileUpload s files
          = s\<lparr>error := Some (queue_limit_message (activeCount (history s)))\<rparr>"
        by (simp add: handleFileUpload_def processUploadedFiles_def Let_def)
      then show ?thesis by blast
    next
      case False
      with ne v have "handleFileUpload s files =
        s\<lparr>error := None,
          history := List.map_filter (new_item s) (filter valid_file files) @ history s\<rparr>"
        by (simp add: handleFileUpload_def processUploadedFiles_def Let_def)
      then show ?thesis by blast
    qed
  qed
qed

lemma single_flight_from_inv:
  assumes "distinct (map itemId h)" and "generating_ids h \<subseteq> {k}"
  shows "length (filter (\<lambda>i. status i = Generating) h) \<le> 1"
  using assms
proof (induction h)
  case Nil
  then show ?case by simp
next
  case (Cons a h)
  from Cons.prems have d: "distinct (map itemId h)" and g: "generating_ids h \<subseteq> {k}"
    by (auto simp: generating_ids_def)
  show ?case
  proof (cases "status a = Generating")
    case False
    with Cons.IH [OF d g] show ?thesis by simp
  next
    case True
    with Cons.prems(2) have ak: "itemId a = k" by (auto simp: generating_ids_def)
    have "\<forall>i \<in> set h. status i \<noteq> Generating"
    proof
      fix i assume i: "i \<in> set h"
      show "status i \<noteq> Generating"
      proof
        assume "status i = Generating"
        with i g have "itemId i = k" by (auto simp: generating_ids_def)
        with ak i Cons.prems(1) show False by (auto simp: image_iff)
      qed
    qed
    then have "filter (\<lambda>i. status i = Generating) h = []" by (simp add: filter_empty_conv)
    with True show ?thesis by simp
  qed
qed

lemma controller_inv_single_flight:
  assumes "controller_inv s"
  shows "length (filter (\<lambda>i. status i = Generating) (history s)) \<le> 1"
proof -
  from assms have d: "distinct (map itemId (history s))" by (simp add: controller_inv_def)
  from assms obtain k where "generating_ids (history s) \<subseteq> {k}"
    by (cases "task s") (auto simp: controller_inv_def)
  with d show ?thesis by (rule single_flight_from_inv)
qed

lemma catch_block_inv: "in_flight s item \<Longrightarrow> controller_inv (catch_block s item err)"
  by (auto simp: in_flight_def controller_inv_def catch_block_def finally_block_def Let_def
      simp flip: set_map)

lemma on_success_inv: "in_flight s item \<Longrightarrow> controller_inv (on_success s item res)"
  by (auto simp: in_flight_def controller_inv_def on_success_def finally_block_def Let_def
      simp flip: set_map)

lemma in_flight_task: "in_flight s item \<Longrightarrow> controller_inv (s\<lparr>task := Calling item\<rparr>)"
  by (simp add: in_flight_def controller_inv_def)

lemma rate_frame:
  "task (handleRate s k r) = task s \<and> processingId (handleRate s k r) = processingId s
   \<and> isQueueRunning (handleRate s k r) = isQueueRunning s \<and> sent (handleRate s k r) = sent s
   \<and> now (handleRate s k r) = now s"
proof (cases "find (\<lambda>i. itemId i = k) (history s)")
  case None
  then show ?thesis by (simp add: handleRate_def)
next
  case (Some item)
  then show ?thesis by (simp add: handleRate_def Let_def)
qed

lemma upload_frame:
  "task (handleFileUpload s f) = task s \<and> processingId (handleFileUpload s f) = processingId s
   \<and> isQueueRunning (handleFileUpload s f) = isQueueRunning s \<and> sent (handleFileUpload s f) = sent s
   \<and> now (handleFileUpload s f) = now s"
  using upload_shape [of s f] by auto

lemma upload_generating:
  "generating_ids (history (handleFileUpload s f)) = generating_ids (history s)"
  using upload_shape [of s f] by (auto simp: gen_append gen_new_items)

lemma task_ok_mono: "task_ok t pid gen \<Longrightarrow> gen' \<subseteq> gen \<Longrightarrow> task_ok t pid gen'"
  by (cases t) auto

lemma inv_frame:
  assumes "controller_inv s" and "task s' = task s" and "processingId s' = processingId s"
    and "map itemId (history s') = map itemId (history s)"
    and "generating_ids (history s') \<subseteq> generating_ids (history s)"
  shows "controller_inv s'"
proof -
  from assms(4) have "itemId ` set (history s') = itemId ` set (history s)" by (metis set_map)
  with assms task_ok_mono show ?thesis by (auto simp: controller_inv_def)
qed

lemma upload_inv:
  assumes "controller_inv s" and "fresh_ids s (Upload files)"
  shows "controller_inv (handleFileUpload s files)"
proof -
  define new where "new = List.map_filter (new_item s) (filter valid_file files)"
  from assms(2) have f: "distinct (map itemId new)"
      "set (map itemId new) \<inter> set (map itemId (history s)) = {}"
    by (auto simp: fresh_ids_def new_ids_def new_def list_all_iff)
  from assms(1) have d: "distinct (map itemId (history s))" "[] \<notin> itemId ` set (history s)"
    by (simp_all add: controller_inv_def)
  have d': "distinct (map itemId (history (handleFileUpload s files)))"
    using upload_shape [of s files] f d by (auto simp: new_def)
  have n': "[] \<notin> itemId ` set (history (handleFileUpload s files))"
    using upload_shape [of s files] d(2) new_items_ids_nonempty [of s "filter valid_file files"]
    by auto
  from assms(1) d' n' show ?thesis
    unfolding controller_inv_def
    by (simp add: upload_frame upload_generating)
qed

lemma regenerate_inv:
  assumes "controller_inv s" shows "controller_inv (handleRegenerate s k)"
  using assms
proof (rule inv_frame)
  show "generating_ids (history (handleRegenerate s k)) \<subseteq> generating_ids (history s)"
    by (rule gen_regenerate)
qed (simp_all add: handleRegenerate_def regenerated_def Let_def)

lemma rate_inv:
  assumes "controller_inv s" shows "controller_inv (handleRate s k r)"
  using assms by (rule inv_frame) (simp_all add: rate_frame)

lemma in_flight_from_throttle:
  "controller_inv s \<Longrightarrow> task s = Throttle item due \<Longrightarrow> in_flight s item"
  by (simp add: controller_inv_def in_flight_def)

lemma in_flight_from_calling:
  "controller_inv s \<Longrightarrow> task s = Calling item \<Longrightarrow> in_flight s item"
  by (simp add: controller_inv_def in_flight_def)

lemma in_flight_sent: "in_flight s item \<Longrightarrow> in_flight (s\<lparr>sent := x\<rparr>) item"
  by (simp add: in_flight_def)

lemma after_throttle_inv:
  assumes "in_flight s item" shows "controller_inv (after_throttle s item)"
proof (cases "falsy_string (API_KEY s)")
  case True
  with catch_block_inv [OF assms] show ?thesis by (simp add: after_throttle_def)
next
  case False
  have "controller_inv (s\<lparr>sent := sent s @ [item_request item (getAiMemoryContext (ratings_storage s))],
                           task := Calling item\<rparr>)"
    using assms by (simp add: in_flight_def controller_inv_def)
  with False show ?thesis by (simp add: after_throttle_def Let_def)
qed

lemma finally_inv:
  "controller_inv s \<Longrightarrow> task s = Cooldown item due \<Longrightarrow> controller_inv (finally_block s)"
  by (simp add: controller_inv_def finally_block_def)

lemma nextItem_mem: "nextItem h = Some item \<Longrightarrow> item \<in> set h"
  unfolding nextItem_def by (auto simp: find_Some_iff)

lemma processQueueItem_inv:
  assumes "controller_inv s" and "task s = Idle" and "item \<in> set (history s)"
  shows "controller_inv (processQueueItem s item)"
proof -
  define s1 where "s1 = s\<lparr>processingId := Some (itemId item),
                          history := mark_generating (itemId item) (history s)\<rparr>"
  from assms have g: "generating_ids (history s) = {}" and d: "distinct (map itemId (history s))"
    and n: "[] \<notin> itemId ` set (history s)"
    by (simp_all add: controller_inv_def)
  from n assms(3) have ne: "itemId item \<noteq> []" by (metis imageI)
  have "generating_ids (history s1) \<subseteq> {itemId item}"
    using gen_mark_generating [of "itemId item" "history s"] g by (simp add: s1_def)
  moreover have "itemId ` set (history s1) = itemId ` set (history s)"
    using ids_mark_generating [of "itemId item" "history s"] by (simp add: s1_def flip: set_map)
  ultimately have fl: "in_flight s1 item"
    using d n ne by (simp add: in_flight_def s1_def)
  show ?thesis
  proof (cases "falsy_string (base64Data item) \<or> falsy_string (mimeType item)")
    case True
    with catch_block_inv [OF fl] show ?thesis
      by (simp add: processQueueItem_def Let_def s1_def)
  next
    case False
    have "controller_inv (s1\<lparr>task := Throttle item (now s + 1000)\<rparr>)"
      using fl by (simp add: in_flight_def controller_inv_def)
    with False show ?thesis by (simp add: processQueueItem_def Let_def s1_def)
  qed
qed

lemma effect_inv:
  assumes "controller_inv s" shows "controller_inv (queue_effect s)"
proof (cases "isQueueRunning s \<and> falsy_string (processingId s)")
  case False
  with assms show ?thesis by (auto simp: queue_effect_def)
next
  case True
  with assms have idle: "task s = Idle"
    by (cases "task s") (auto simp: controller_inv_def falsy_string_def)
  show ?thesis
  proof (cases "nextItem (history s)")
    case None
    have "controller_inv (s\<lparr>isQueueRunning := False\<rparr>)"
      using assms by (simp add: controller_inv_def)
    with True None show ?thesis by (simp add: queue_effect_def)
  next
    case (Some item)
    from processQueueItem_inv [OF assms idle nextItem_mem [OF Some]] True Some
    show ?thesis by (simp add: queue_effect_def)
  qed
qed

lemma step_inv:
  assumes "controller_inv s" and "fresh_ids s e"
  shows "controller_inv (step s e)"
proof (cases e)
  case (Upload files)
  with assms upload_inv show ?thesis by simp
next
  case (Regenerate k)
  with assms regenerate_inv show ?thesis by simp
next
  case (Rate k r)
  with assms rate_inv show ?thesis by simp
next
  case ClearHistory
  have "task_ok (task s) (processingId s) {}"
    using assms(1) task_ok_mono [of "task s" "processingId s" "generating_ids (history s)" "{}"]
    by (simp add: controller_inv_def)
  with ClearHistory show ?thesis
    by (simp add: controller_inv_def handleClearHistory_def generating_ids_def)
next
  case Effect
  with assms effect_inv show ?thesis by simp
next
  case TimerFires
  show ?thesis
  proof (cases "task s")
    case (Throttle item due)
    with TimerFires assms(1) in_flight_from_throttle [OF assms(1) Throttle]
      after_throttle_inv [of s item]
    show ?thesis by simp
  next
    case (Cooldown item due)
    with TimerFires assms(1) finally_inv [OF assms(1) Cooldown] show ?thesis by simp
  qed (use TimerFires assms(1) in simp_all)
next
  case (Respond parts)
  show ?thesis
  proof (cases "task s")
    case (Calling item)
    with Respond in_flight_from_calling [OF assms(1) Calling]
      on_success_inv [of s item] catch_block_inv [of s item]
    show ?thesis by (simp split: sum.splits)
  qed (use Respond assms(1) in simp_all)
next
  case (Reject err)
  show ?thesis
  proof (cases "task s")
    case (Calling item)
    with Reject in_flight_from_calling [OF assms(1) Calling] catch_block_inv [of s item]
    show ?thesis by simp
  qed (use Reject assms(1) in simp_all)
qed (use assms(1) in \<open>simp_all add: controller_inv_def\<close>)

lemma run_Cons: "run s (e # es) = run (step s e) es"
  by (simp add: run_def)

lemma run_Nil: "run s [] = s"
  by (simp add: run_def)

lemma run_inv: "controller_inv s \<Longrightarrow> fresh_run s evs \<Longrightarrow> controller_inv (run s evs)"
  by (induction evs arbitrary: s) (simp_all add: run_Nil run_Cons step_inv)

lemma initial_inv: "controller_inv (initial stored key)"
  by (simp add: controller_inv_def initial_def generating_ids_def)

text \<open>
  C2. In every state reached from the initial one by any sequence of events
  (submissions, resubmissions, ratings, starts, pauses, clears, setting changes, scans,
  timers and outcomes of the generation call), at most one job of the store has status
  generating, provided the ids drawn for submitted jobs are fresh.
\<close>

theorem single_flight_invariant:
  assumes "fresh_run (initial stored key) evs"
  shows "length (filter (\<lambda>i. status i = Generating) (history (run (initial stored key) evs))) \<le> 1"
  using controller_inv_single_flight [OF run_inv [OF initial_inv assms]] .

section \<open>Failure handling\<close>

lemma regenerate_frame:
  "task (handleRegenerate s k) = task s \<and> processingId (handleRegenerate s k) = processingId s
   \<and> isQueueRunning (handleRegenerate s k) = isQueueRunning s \<and> sent (handleRegenerate s k) = sent s
   \<and> now (handleRegenerate s k) = now s"
  by (simp add: handleRegenerate_def)

lemma regenerate_generating_empty:
  "generating_ids (history s) = {} \<Longrightarrow> generating_ids (history (handleRegenerate s k)) = {}"
  using gen_regenerate [of s k] by auto

lemma now_catch_block: "now (catch_block s item err) = now s"
  by (simp add: catch_block_def finally_block_def Let_def)

lemma now_step: "now s \<le> now (step s e)"
proof (cases e)
  case (Upload files)
  then show ?thesis by (simp add: upload_frame)
next
  case (Regenerate k)
  then show ?thesis by (simp add: regenerate_frame)
next
  case (Rate k r)
  then show ?thesis by (simp add: rate_frame)
next
  case Effect
  then show ?thesis
    by (simp add: queue_effect_def processQueueItem_def now_catch_block Let_def split: option.splits)
next
  case TimerFires
  then show ?thesis
    by (simp add: after_throttle_def now_catch_block finally_block_def Let_def split: Task.splits)
next
  case (Respond parts)
  then show ?thesis
    by (simp add: on_success_def now_catch_block finally_block_def Let_def
        split: Task.splits sum.splits)
next
  case (Reject err)
  then show ?thesis by (simp add: now_catch_block split: Task.splits)
qed (simp_all add: handleClearHistory_def)

lemma now_run: "now s \<le> now (run s evs)"
proof (induction evs arbitrary: s)
  case Nil
  then show ?case by (simp add: run_Nil)
next
  case (Cons e es)
  have "now s \<le> now (step s e)" by (rule now_step)
  also have "\<dots> \<le> now (run (step s e) es)" by (rule Cons.IH)
  finally show ?case by (simp add: run_Cons)
qed

lemma cooling_step:
  assumes "cooling s item due" and "now (step s e) < due"
  shows "cooling (step s e) item due \<and> sent (step s e) = sent s"
proof (cases e)
  case (Upload files)
  with assms(1) show ?thesis by (simp add: cooling_def upload_frame upload_generating)
next
  case (Regenerate k)
  with assms(1) show ?thesis
    by (simp add: cooling_def regenerate_frame regenerate_generating_empty)
next
  case (Rate k r)
  with assms(1) show ?thesis by (simp add: cooling_def rate_frame)
next
  case ClearHistory
  with assms(1) show ?thesis by (simp add: cooling_def handleClearHistory_def generating_ids_def)
next
  case Effect
  with assms(1) show ?thesis by (simp add: cooling_def queue_effect_def falsy_string_def)
next
  case TimerFires
  from assms(1) have t: "task s = Cooldown item due" by (simp add: cooling_def)
  have "\<not> due \<le> now s"
  proof
    assume "due \<le> now s"
    with t TimerFires have "now (step s e) = now s" by (simp add: finally_block_def)
    with assms(2) \<open>due \<le> now s\<close> show False by simp
  qed
  with t TimerFires assms(1) show ?thesis by simp
next
  case (Respond parts)
  with assms(1) show ?thesis by (simp add: cooling_def)
next
  case (Reject err)
  with assms(1) show ?thesis by (simp add: cooling_def)
qed (use assms(1) in \<open>simp_all add: cooling_def\<close>)

lemma cooling_run:
  "cooling s item due \<Longrightarrow> now (run s evs) < due \<Longrightarrow>
     cooling (run s evs) item due \<and> sent (run s evs) = sent s"
proof (induction evs arbitrary: s)
  case Nil
  then show ?case by (simp add: run_Nil)
next
  case (Cons e es)
  have "now (step s e) \<le> now (run (step s e) es)" by (rule now_run)
  with Cons.prems(2) have lt: "now (step s e) < due" by (simp add: run_Cons)
  from cooling_step [OF Cons.prems(1) lt]
  have c: "cooling (step s e) item due" and se: "sent (step s e) = sent s" by simp_all
  from Cons.prems(2) have "now (run (step s e) es) < due" by (simp add: run_Cons)
  from Cons.IH [OF c this] se show ?case by (simp add: run_Cons)
qed

lemma paused_step:
  assumes "paused_idle s" and "e \<noteq> Start"
  shows "paused_idle (step s e) \<and> sent (step s e) = sent s"
proof (cases e)
  case (Upload files)
  with assms(1) show ?thesis by (simp add: paused_idle_def upload_frame upload_generating)
next
  case (Regenerate k)
  with assms(1) show ?thesis
    by (simp add: paused_idle_def regenerate_frame regenerate_generating_empty)
next
  case (Rate k r)
  with assms(1) show ?thesis by (simp add: paused_idle_def rate_frame)
next
  case ClearHistory
  with assms(1) show ?thesis
    by (simp add: paused_idle_def handleClearHistory_def generating_ids_def)
next
  case Effect
  with assms(1) show ?thesis by (simp add: paused_idle_def queue_effect_def)
next
  case Start
  with assms(2) show ?thesis by simp
qed (use assms(1) in \<open>simp_all add: paused_idle_def\<close>)

lemma paused_run:
  "paused_idle s \<Longrightarrow> Start \<notin> set evs \<Longrightarrow> paused_idle (run s evs) \<and> sent (run s evs) = sent s"
proof (induction evs arbitrary: s)
  case Nil
  then show ?case by (simp add: run_Nil)
next
  case (Cons e es)
  from Cons.prems(2) have ne: "e \<noteq> Start" and rest: "Start \<notin> set es" by auto
  from paused_step [OF Cons.prems(1) ne]
  have p: "paused_idle (step s e)" and se: "sent (step s e) = sent s" by simp_all
  from Cons.IH [OF p rest] se show ?case by (simp add: run_Cons)
qed

lemma failed_after_mark:
  assumes "i \<in> set (mark_failed k h)" and "itemId i = k"
  shows "status i = Failed"
proof -
  from assms(1) obtain x where x: "x \<in> set h"
      "i = (if itemId x = k then x\<lparr>status := Failed, base64Data := None\<rparr> else x)"
    unfolding mark_failed_def set_map by blast
  show ?thesis
  proof (cases "itemId x = k")
    case True
    with x(2) show ?thesis by simp
  next
    case False
    with x(2) assms(2) show ?thesis by simp
  qed
qed

lemma catch_block_rate_limit:
  assumes "isRateLimit err" and "\<not> isAuthError err"
  shows "catch_block s item err
           = s\<lparr>history := mark_failed (itemId item) (history s), task := Cooldown item (now s + 10000)\<rparr>"
  using assms by (simp add: catch_block_def Let_def)

lemma catch_block_auth:
  assumes "isAuthError err"
  shows "catch_block s item err
           = s\<lparr>history := mark_failed (itemId item) (history s), hasKey := False,
                error := Some ''API Key session expired. Please select your key again.'',
                isQueueRunning := False, processingId := None, task := Idle\<rparr>"
  using assms by (simp add: catch_block_def finally_block_def Let_def)

text \<open>
  C4 (amended). When the generation call of the job in flight fails with an error that
  is classified as a rate limit and does not match the credential-expired pattern, which
  is tested first, every job with that id is marked failed, the run flag is left as it
  is, and the in-flight marker is kept: in every state reached afterwards while the
  clock is less than 10000 ms past the failure, the cooldown is still pending, the
  marker still names the failed job, the scan does nothing, no job is generating and
  no request has been sent.
\<close>

theorem rate_limit_holds_lock_for_cooldown:
  assumes "controller_inv s" and "task s = Calling item"
    and "isRateLimit err" and "\<not> isAuthError err"
  shows "(\<forall>i \<in> set (history (step s (Reject err))). itemId i = itemId item \<longrightarrow> status i = Failed)
     \<and> task (step s (Reject err)) = Cooldown item (now s + 10000)
     \<and> processingId (step s (Reject err)) = Some (itemId item)
     \<and> isQueueRunning (step s (Reject err)) = isQueueRunning s
     \<and> (\<forall>evs. now (run (step s (Reject err)) evs) < now s + 10000 \<longrightarrow>
            task (run (step s (Reject err)) evs) = Cooldown item (now s + 10000)
          \<and> processingId (run (step s (Reject err)) evs) = Some (itemId item)
          \<and> step (run (step s (Reject err)) evs) Effect = run (step s (Reject err)) evs
          \<and> generating_ids (history (run (step s (Reject err)) evs)) = {}
          \<and> sent (run (step s (Reject err)) evs) = sent s)"
proof -
  define s' where "s' = step s (Reject err)"
  have s': "s' = s\<lparr>history := mark_failed (itemId item) (history s),
                    task := Cooldown item (now s + 10000)\<rparr>"
    using assms(2) catch_block_rate_limit [OF assms(3,4)] by (simp add: s'_def)
  from in_flight_from_calling [OF assms(1,2)]
  have fl: "processingId s = Some (itemId item)" "itemId item \<noteq> []"
      "generating_ids (history s) \<subseteq> {itemId item}"
    by (simp_all add: in_flight_def)
  have c: "cooling s' item (now s + 10000)"
    using fl by (auto simp: cooling_def s')
  have hs': "history s' = mark_failed (itemId item) (history s)" by (simp add: s')
  have a: "\<forall>i \<in> set (history s'). itemId i = itemId item \<longrightarrow> status i = Failed"
    unfolding hs' using failed_after_mark by blast
  have b: "\<forall>evs. now (run s' evs) < now s + 10000 \<longrightarrow>
            task (run s' evs) = Cooldown item (now s + 10000)
          \<and> processingId (run s' evs) = Some (itemId item)
          \<and> step (run s' evs) Effect = run s' evs
          \<and> generating_ids (history (run s' evs)) = {}
          \<and> sent (run s' evs) = sent s"
  proof (intro allI impI)
    fix evs assume "now (run s' evs) < now s + 10000"
    from cooling_run [OF c this] have c': "cooling (run s' evs) item (now s + 10000)"
      and se: "sent (run s' evs) = sent s'" by simp_all
    from c' have "step (run s' evs) Effect = run s' evs"
      by (simp add: cooling_def queue_effect_def falsy_string_def)
    with c' se show "task (run s' evs) = Cooldown item (now s + 10000)
          \<and> processingId (run s' evs) = Some (itemId item)
          \<and> step (run s' evs) Effect = run s' evs
          \<and> generating_ids (history (run s' evs)) = {}
          \<and> sent (run s' evs) = sent s"
      by (simp add: cooling_def s')
  qed
  from a b fl(1) show ?thesis unfolding s'_def [symmetric] by (simp add: s')
qed

text \<open>
  C5 (amended). When the generation call of the job in flight fails with a
  credential-expired error, the job is marked failed, the credential flag is cleared,
  the message is set, the run flag is turned off and the in-flight marker released,
  however many jobs remain queued; and as long as the queue is not started again,
  whatever else happens (a new credential included), the run flag stays off, no job is
  generating and no request is sent.
\<close>

theorem credential_expired_pauses_queue:
  assumes "controller_inv s" and "task s = Calling item" and "isAuthError err"
  shows "hasKey (step s (Reject err)) = False
     \<and> error (step s (Reject err)) = Some ''API Key session expired. Please select your key again.''
     \<and> isQueueRunning (step s (Reject err)) = False
     \<and> processingId (step s (Reject err)) = None
     \<and> task (step s (Reject err)) = Idle
     \<and> history (step s (Reject err)) = mark_failed (itemId item) (history s)
     \<and> (\<forall>evs. Start \<notin> set evs \<longrightarrow>
            isQueueRunning (run (step s (Reject err)) evs) = False
          \<and> task (run (step s (Reject err)) evs) = Idle
          \<and> generating_ids (history (run (step s (Reject err)) evs)) = {}
          \<and> sent (run (step s (Reject err)) evs) = sent s)"
proof -
  define s' where "s' = step s (Reject err)"
  have s': "s' = s\<lparr>history := mark_failed (itemId item) (history s), hasKey := False,
                error := Some ''API Key session expired. Please select your key again.'',
                isQueueRunning := False, processingId := None, task := Idle\<rparr>"
    using assms(2) catch_block_auth [OF assms(3)] by (simp add: s'_def)
  from in_flight_from_calling [OF assms(1,2)]
  have "generating_ids (history s) \<subseteq> {itemId item}" by (simp add: in_flight_def)
  then have p: "paused_idle s'" by (auto simp: paused_idle_def s')
  have b: "\<forall>evs. Start \<notin> set evs \<longrightarrow>
            isQueueRunning (run s' evs) = False \<and> task (run s' evs) = Idle
          \<and> generating_ids (history (run s' evs)) = {} \<and> sent (run s' evs) = sent s"
  proof (intro allI impI)
    fix evs assume "Start \<notin> set evs"
    from paused_run [OF p this]
    show "isQueueRunning (run s' evs) = False \<and> task (run s' evs) = Idle
          \<and> generating_ids (history (run s' evs)) = {} \<and> sent (run s' evs) = sent s"
      by (simp add: paused_idle_def s')
  qed
  from b show ?thesis unfolding s'_def [symmetric] by (simp add: s')
qed

lemmas controller_eval = run_def handleFileUpload_def processUploadedFiles_def valid_file_def
  new_item_def List.map_filter_def MAX_QUEUE_SIZE_def activeCount_def initial_def sample_file_def
  Let_def queue_effect_def nextItem_def processQueueItem_def falsy_string_def mark_generating_def
  mark_failed_def mark_completed_def String_number_def String_nat.simps digit_def at_index_def
  after_throttle_def catch_block_def finally_block_def on_success_def
  generateProPhoto_result_def isRateLimit_def isAuthError_def message_includes_def
  fresh_ids_def new_ids_def job_def warm_up_def calling_state_def image_part_def quota_error_def
  expired_error_def throttled_and_expired_error_def or_default_def initial_settings_def

lemma warm_up_fresh: "fresh_run (initial None (Some ''key'')) warm_up"
  by (simp add: controller_eval)

lemma calling_state_eval:
  "task calling_state = Calling (job ''a'' Queued) \<and> now calling_state = 1000
   \<and> history calling_state = [job ''a'' Generating, job ''b'' Queued]
   \<and> processingId calling_state = Some ''0a'' \<and> isQueueRunning calling_state
   \<and> hasKey calling_state \<and> length (sent calling_state) = 1"
  by (simp add: controller_eval)

lemma calling_state_inv: "controller_inv calling_state"
  unfolding calling_state_def by (rule run_inv [OF initial_inv warm_up_fresh])

lemma errors_eval:
  "isRateLimit quota_error \<and> \<not> isAuthError quota_error \<and> isAuthError expired_error
   \<and> isRateLimit throttled_and_expired_error \<and> isAuthError throttled_and_expired_error"
  by (simp add: controller_eval)

lemma busy_trace_eval:
  "fresh_run (initial None (Some ''key'')) busy_trace
   \<and> map status (history (run (initial None (Some ''key'')) busy_trace)) = [Completed, Generating]"
  by (simp add: busy_trace_def controller_eval)

theorem single_flight_invariant_witness:
  "fresh_run (initial None (Some ''key'')) busy_trace
   \<and> map status (history (run (initial None (Some ''key'')) busy_trace)) = [Completed, Generating]
   \<and> length (filter (\<lambda>i. status i = Generating)
         (history (run (initial None (Some ''key'')) busy_trace))) \<le> 1"
  using single_flight_invariant [of None "Some ''key''" busy_trace] busy_trace_eval
  by blast

lemma cooldown_eval:
  "map status (history (step calling_state (Reject quota_error))) = [Failed, Queued]
   \<and> now (run (step calling_state (Reject quota_error)) [Effect, Tick 9999, TimerFires, Effect]) = 10999
   \<and> processingId (run (step calling_state (Reject quota_error)) [Effect, Tick 9999, TimerFires, Effect])
        = Some ''0a''
   \<and> map status (history (run (step calling_state (Reject quota_error))
                              [Effect, Tick 9999, TimerFires, Effect])) = [Failed, Queued]
   \<and> processingId (run (step calling_state (Reject quota_error)) [Tick 10000, TimerFires, Effect])
        = Some ''0b''
   \<and> map status (history (run (step calling_state (Reject quota_error))
                              [Tick 10000, TimerFires, Effect])) = [Failed, Generating]"
  by (simp add: controller_eval)

theorem rate_limit_holds_lock_for_cooldown_witness:
  "controller_inv calling_state \<and> task calling_state = Calling (job ''a'' Queued)
   \<and> isRateLimit quota_error \<and> \<not> isAuthError quota_error
   \<and> map status (history (step calling_state (Reject quota_error))) = [Failed, Queued]
   \<and> task (step calling_state (Reject quota_error)) = Cooldown (job ''a'' Queued) 11000
   \<and> now (run (step calling_state (Reject quota_error)) [Effect, Tick 9999, TimerFires, Effect]) = 10999
   \<and> processingId (run (step calling_state (Reject quota_error)) [Effect, Tick 9999, TimerFires, Effect])
        = Some ''0a''
   \<and> map status (history (run (step calling_state (Reject quota_error))
                              [Effect, Tick 9999, TimerFires, Effect])) = [Failed, Queued]
   \<and> processingId (run (step calling_state (Reject quota_error)) [Tick 10000, TimerFires, Effect])
        = Some ''0b''"
  using rate_limit_holds_lock_for_cooldown [of calling_state "job ''a'' Queued" quota_error]
    calling_state_inv calling_state_eval errors_eval cooldown_eval
  by simp

text \<open>
  The cooldown is not kept for every rate-limit error: an error with status 429 whose
  message matches the credential-expired pattern releases the marker at once, and a
  start dispatches the next job at the very instant of the failure.
\<close>

theorem rate_limit_cooldown_counterexample:
  "isRateLimit throttled_and_expired_error
   \<and> task calling_state = Calling (job ''a'' Queued) \<and> now calling_state = 1000
   \<and> processingId (step calling_state (Reject throttled_and_expired_error)) = None
   \<and> task (step calling_state (Reject throttled_and_expired_error)) = Idle
   \<and> now (run calling_state [Reject throttled_and_expired_error, Start, Effect]) = 1000
   \<and> processingId (run calling_state [Reject throttled_and_expired_error, Start, Effect]) = Some ''0b''
   \<and> map status (history (run calling_state [Reject throttled_and_expired_error, Start, Effect]))
        = [Failed, Generating]"
  by (simp add: controller_eval)

lemma expired_eval:
  "map status (history (step calling_state (Reject expired_error))) = [Failed, Queued]
   \<and> map status (history (run (step calling_state (Reject expired_error))
                              [Effect, SelectKey True, Effect, Tick 60000, TimerFires, Effect]))
        = [Failed, Queued]
   \<and> hasKey (run (step calling_state (Reject expired_error))
                              [Effect, SelectKey True, Effect, Tick 60000, TimerFires, Effect])"
  by (simp add: controller_eval)

theorem credential_expired_pauses_queue_witness:
  "controller_inv calling_state \<and> task calling_state = Calling (job ''a'' Queued)
   \<and> isAuthError expired_error
   \<and> hasKey (step calling_state (Reject expired_error)) = False
   \<and> isQueueRunning (step calling_state (Reject expired_error)) = False
   \<and> map status (history (step calling_state (Reject expired_error))) = [Failed, Queued]
   \<and> map status (history (run (step calling_state (Reject expired_error))
                              [Effect, SelectKey True, Effect, Tick 60000, TimerFires, Effect]))
        = [Failed, Queued]
   \<and> sent (run (step calling_state (Reject expired_error))
                              [Effect, SelectKey True, Effect, Tick 60000, TimerFires, Effect])
        = sent calling_state"
  using credential_expired_pauses_queue [of calling_state "job ''a'' Queued" expired_error]
    calling_state_inv calling_state_eval errors_eval expired_eval
  by simp

text \<open>
  The controller does not consult the credential flag: after the credential failure a
  start alone, with the flag still cleared, dispatches the next queued job and sends
  its request.
\<close>

theorem dispatch_without_credential_counterexample:
  "isAuthError expired_error
   \<and> task calling_state = Calling (job ''a'' Queued)
   \<and> hasKey (run calling_state [Reject expired_error, Start, Effect, Tick 1000, TimerFires]) = False
   \<and> map status (history (run calling_state [Reject expired_error, Start, Effect, Tick 1000, TimerFires]))
        = [Failed, Generating]
   \<and> task (run calling_state [Reject expired_error, Start, Effect, Tick 1000, TimerFires])
        = Calling (job ''b'' Queued)
   \<and> length (sent (run calling_state [Reject expired_error, Start, Effect, Tick 1000, TimerFires]))
        = length (sent calling_state) + 1"
  by (simp add: controller_eval)

end
